theory Spec2Isabelle
  imports Main
begin

section \<open>The relational schema of backend/models.py\<close>

text \<open>
  Every Django model of \<^verbatim>\<open>backend/models.py\<close> is a record holding the columns of its
  table, a foreign key being the primary key of the row it points to. Primary keys are the
  automatic positive integers of Django, \<^verbatim>\<open>PositiveIntegerField\<close> columns are
  natural numbers, \<^verbatim>\<open>CharField\<close> columns are strings. The fields carry a two-letter
  prefix because record fields are global names.

  Two declarations of the file matter for everything below and are kept as they are written:
  \<^item> \<^verbatim>\<open>Order.user\<close> is a foreign key to \<^verbatim>\<open>Contact\<close> (models.py, line 171), and
    \<^verbatim>\<open>Order\<close> has no field named \<^verbatim>\<open>contact\<close>;
  \<^item> \<^verbatim>\<open>OrderItem\<close> points to its \<^verbatim>\<open>ProductInfo\<close> through the field
    \<^verbatim>\<open>product\<close> (line 199), and \<^verbatim>\<open>Category\<close> names its many-to-many relation
    to \<^verbatim>\<open>Seller\<close> \<^verbatim>\<open>shops\<close> (line 81).
\<close>

record User =
  us_id :: nat
  us_type :: string

record Contact =
  ct_id :: nat
  ct_user :: nat
  ct_address :: string
  ct_phone :: string

record Seller =
  sl_id :: nat
  sl_user :: "nat option"
  sl_name :: string
  sl_state :: bool
  sl_url :: "string option"

record Category =
  cg_id :: nat
  cg_name :: string

record Product =
  pr_id :: nat
  pr_name :: string
  pr_category :: nat

record ProductInfo =
  pi_id :: nat
  pi_name :: string
  pi_product :: nat
  pi_seller :: nat
  pi_quantity :: nat
  pi_price :: nat
  pi_price_rrc :: nat
  pi_article :: nat

record Parameter =
  pm_id :: nat
  pm_name :: string

record ProductParameter =
  pp_id :: nat
  pp_product_info :: nat
  pp_parameter :: nat
  pp_value :: string

record Order =
  od_id :: nat
  od_user :: nat
  od_dt :: nat
  od_state :: string

record OrderItem =
  oi_id :: nat
  oi_order :: nat
  oi_product :: nat
  oi_shop :: nat
  oi_quantity :: nat

text \<open>
  The database: one list of rows per table in insertion order, the join table of
  \<^verbatim>\<open>Category.shops\<close>, the sequence that hands out the next automatic primary key
  of each table, and the clock that \<^verbatim>\<open>auto_now_add\<close> reads. Every statement is
  committed as it runs (Django's autocommit), so what a view wrote before it raised is
  still in the store it leaves behind.
\<close>

record store =
  contacts :: "Contact list"
  sellers :: "Seller list"
  categories :: "Category list"
  category_shops :: "(nat \<times> nat) list"
  products :: "Product list"
  product_infos :: "ProductInfo list"
  parameters :: "Parameter list"
  product_parameters :: "ProductParameter list"
  orders :: "Order list"
  order_items :: "OrderItem list"
  seq_seller :: nat
  seq_product :: nat
  seq_product_info :: nat
  seq_parameter :: nat
  seq_product_parameter :: nat
  seq_order :: nat
  seq_order_item :: nat
  clock :: nat

datatype error =
    FieldError
  | FieldDoesNotExist
  | AttributeError
  | IntegrityError
  | MultipleObjectsReturned
  | UnboundLocalError
  | TypeError
  | KeyError
  | ValueError
  | OverflowError
  | RequestException

datatype body =
    Error string
  | Errors string
  | Status_True
  | Created_objects nat
  | Deleted_objects nat
  | Updated_objects nat

datatype response =
    JsonResponse body nat
  | Response "(Order \<times> nat option) list"

type_synonym 'a result = "(error + 'a) \<times> store"

section \<open>The object-relational mapper\<close>

text \<open>\<^verbatim>\<open>QuerySet.get\<close>: the one row that matches, or one of its two exceptions.\<close>

datatype 'a got = DoesNotExist | Got 'a | MultipleReturned

definition get_where :: "('a \<Rightarrow> bool) \<Rightarrow> 'a list \<Rightarrow> 'a got" where
  "get_where P rows =
     (case filter P rows of
        [] \<Rightarrow> DoesNotExist
      | [x] \<Rightarrow> Got x
      | x # y # zs \<Rightarrow> MultipleReturned)"

text \<open>
  \<^verbatim>\<open>Seller.objects.get_or_create(name=..., user_id=...)\<close>. The insert fails on the
  unique index of the one-to-one field \<^verbatim>\<open>Seller.user\<close> when the user owns a seller
  of another name.
\<close>

definition Seller_get_or_create :: "store \<Rightarrow> string \<Rightarrow> nat \<Rightarrow> Seller result" where
  "Seller_get_or_create s name user_id =
     (case get_where (\<lambda>x. sl_name x = name \<and> sl_user x = Some user_id) (sellers s) of
        Got x \<Rightarrow> (Inr x, s)
      | MultipleReturned \<Rightarrow> (Inl MultipleObjectsReturned, s)
      | DoesNotExist \<Rightarrow>
          if list_ex (\<lambda>x. sl_user x = Some user_id) (sellers s) then (Inl IntegrityError, s)
          else
            let x = \<lparr>sl_id = seq_seller s, sl_user = Some user_id, sl_name = name,
                      sl_state = True, sl_url = None\<rparr>
            in (Inr x, s\<lparr>sellers := sellers s @ [x], seq_seller := Suc (seq_seller s)\<rparr>))"

text \<open>
  \<^verbatim>\<open>Category.objects.get_or_create(id=..., name=...)\<close>. The primary key is given, so
  the insert fails when a category of that id and another name exists.
\<close>

definition Category_get_or_create :: "store \<Rightarrow> nat \<Rightarrow> string \<Rightarrow> Category result" where
  "Category_get_or_create s cid name =
     (case get_where (\<lambda>x. cg_id x = cid \<and> cg_name x = name) (categories s) of
        Got x \<Rightarrow> (Inr x, s)
      | MultipleReturned \<Rightarrow> (Inl MultipleObjectsReturned, s)
      | DoesNotExist \<Rightarrow>
          if list_ex (\<lambda>x. cg_id x = cid) (categories s) then (Inl IntegrityError, s)
          else
            let x = \<lparr>cg_id = cid, cg_name = name\<rparr>
            in (Inr x, s\<lparr>categories := categories s @ [x]\<rparr>))"

text \<open>
  \<^verbatim>\<open>Product.objects.get_or_create(name=..., category_id=...)\<close>. The insert fails on
  the foreign key \<^verbatim>\<open>Product.category\<close> when no category has that id.
\<close>

definition Product_get_or_create :: "store \<Rightarrow> string \<Rightarrow> nat \<Rightarrow> Product result" where
  "Product_get_or_create s name category_id =
     (case get_where (\<lambda>x. pr_name x = name \<and> pr_category x = category_id) (products s) of
        Got x \<Rightarrow> (Inr x, s)
      | MultipleReturned \<Rightarrow> (Inl MultipleObjectsReturned, s)
      | DoesNotExist \<Rightarrow>
          if list_ex (\<lambda>c. cg_id c = category_id) (categories s) then
            let x = \<lparr>pr_id = seq_product s, pr_name = name, pr_category = category_id\<rparr>
            in (Inr x, s\<lparr>products := products s @ [x], seq_product := Suc (seq_product s)\<rparr>)
          else (Inl IntegrityError, s))"

text \<open>\<^verbatim>\<open>Parameter.objects.get_or_create(name=...)\<close>.\<close>

definition Parameter_get_or_create :: "store \<Rightarrow> string \<Rightarrow> Parameter result" where
  "Parameter_get_or_create s name =
     (case get_where (\<lambda>x. pm_name x = name) (parameters s) of
        Got x \<Rightarrow> (Inr x, s)
      | MultipleReturned \<Rightarrow> (Inl MultipleObjectsReturned, s)
      | DoesNotExist \<Rightarrow>
          let x = \<lparr>pm_id = seq_parameter s, pm_name = name\<rparr>
          in (Inr x, s\<lparr>parameters := parameters s @ [x],
                        seq_parameter := Suc (seq_parameter s)\<rparr>))"

text \<open>
  \<^verbatim>\<open>Order.objects.get_or_create(user_id=..., state=...)\<close>. \<^verbatim>\<open>Order.user\<close> is
  declared as a foreign key to \<^verbatim>\<open>Contact\<close>, so the insert fails when no contact
  has the given id.
\<close>

definition Order_get_or_create :: "store \<Rightarrow> nat \<Rightarrow> string \<Rightarrow> Order result" where
  "Order_get_or_create s user_id state =
     (case get_where (\<lambda>x. od_user x = user_id \<and> od_state x = state) (orders s) of
        Got x \<Rightarrow> (Inr x, s)
      | MultipleReturned \<Rightarrow> (Inl MultipleObjectsReturned, s)
      | DoesNotExist \<Rightarrow>
          if list_ex (\<lambda>c. ct_id c = user_id) (contacts s) then
            let x = \<lparr>od_id = seq_order s, od_user = user_id, od_dt = clock s, od_state = state\<rparr>
            in (Inr x, s\<lparr>orders := orders s @ [x], seq_order := Suc (seq_order s)\<rparr>)
          else (Inl IntegrityError, s))"

text \<open>
  \<^verbatim>\<open>ProductInfo.objects.create(...)\<close> and \<^verbatim>\<open>ProductParameter.objects.create(...)\<close>,
  with the foreign keys the view passes (rows it has just read or written).
\<close>

definition ProductInfo_create ::
  "store \<Rightarrow> string \<Rightarrow> nat \<Rightarrow> nat \<Rightarrow> nat \<Rightarrow> nat \<Rightarrow> nat \<Rightarrow> nat \<Rightarrow> ProductInfo \<times> store" where
  "ProductInfo_create s name product_id seller_id quantity price price_rrc article =
     (let x = \<lparr>pi_id = seq_product_info s, pi_name = name, pi_product = product_id,
                pi_seller = seller_id, pi_quantity = quantity, pi_price = price,
                pi_price_rrc = price_rrc, pi_article = article\<rparr>
      in (x, s\<lparr>product_infos := product_infos s @ [x],
                seq_product_info := Suc (seq_product_info s)\<rparr>))"

definition ProductParameter_create :: "store \<Rightarrow> nat \<Rightarrow> nat \<Rightarrow> string \<Rightarrow> store" where
  "ProductParameter_create s product_info_id parameter_id v =
     s\<lparr>product_parameters := product_parameters s @
          [\<lparr>pp_id = seq_product_parameter s, pp_product_info = product_info_id,
            pp_parameter = parameter_id, pp_value = v\<rparr>],
       seq_product_parameter := Suc (seq_product_parameter s)\<rparr>"

text \<open>
  \<^verbatim>\<open>ProductInfo.objects.filter(seller_id=...).delete()\<close>. Both
  \<^verbatim>\<open>ProductParameter.product_info\<close> and \<^verbatim>\<open>OrderItem.product\<close> are declared
  \<^verbatim>\<open>on_delete=CASCADE\<close>, so the rows that point to a deleted row go with it.
\<close>

definition ProductInfo_delete_seller :: "store \<Rightarrow> nat \<Rightarrow> store" where
  "ProductInfo_delete_seller s seller_id =
     (let gone = map pi_id (filter (\<lambda>x. pi_seller x = seller_id) (product_infos s))
      in s\<lparr>product_infos := filter (\<lambda>x. pi_seller x \<noteq> seller_id) (product_infos s),
           product_parameters :=
             filter (\<lambda>x. pp_product_info x \<notin> set gone) (product_parameters s),
           order_items := filter (\<lambda>x. oi_product x \<notin> set gone) (order_items s)\<rparr>)"

section \<open>Catalog import: CatalogView.post (views.py, lines 44-107)\<close>

text \<open>
  The catalog document after \<^verbatim>\<open>load_yaml\<close>: a mapping with the keys
  \<^verbatim>\<open>seller\<close>, \<^verbatim>\<open>categories\<close> and \<^verbatim>\<open>goods\<close>, well-typed for the columns it
  is written to: every key is present, the names, models and parameter values are strings
  and the numbers are non-negative integers that fit their columns.
  \<^verbatim>\<open>parameters\<close> is a Python dict, kept as the list of its items in iteration
  order.
\<close>

record category_entry =
  ce_id :: nat
  ce_name :: string

record good =
  gd_id :: nat
  gd_category :: nat
  gd_name :: string
  gd_model :: string
  gd_quantity :: nat
  gd_price :: nat
  gd_price_rrc :: nat
  gd_parameters :: "(string \<times> string) list"

record document =
  dc_seller :: string
  dc_categories :: "category_entry list"
  dc_goods :: "good list"

text \<open>
  The attributes of a \<^verbatim>\<open>Category\<close> instance that are related managers:
  \<^verbatim>\<open>shops\<close>, the many-to-many field of models.py line 81, and \<^verbatim>\<open>products\<close>,
  the reverse side of \<^verbatim>\<open>Product.category\<close>. The columns \<^verbatim>\<open>id\<close> and
  \<^verbatim>\<open>name\<close> hold plain values without an \<^verbatim>\<open>add\<close> method, and any other
  name is no attribute at all: reading it, or calling \<^verbatim>\<open>add\<close> on it, raises
  \<^verbatim>\<open>AttributeError\<close>.
\<close>

datatype manager = Shops_manager | Products_manager

definition Category_manager :: "string \<Rightarrow> error + manager" where
  "Category_manager attr =
     (if attr = ''shops'' then Inr Shops_manager
      else if attr = ''products'' then Inr Products_manager
      else Inl AttributeError)"

text \<open>
  \<^verbatim>\<open>manager.add(seller.id)\<close> on a category: the many-to-many manager inserts the
  pair into the join table unless it is there; the reverse foreign-key manager takes model
  instances only and raises \<^verbatim>\<open>TypeError\<close> on a primary key.
\<close>

definition manager_add :: "store \<Rightarrow> manager \<Rightarrow> nat \<Rightarrow> nat \<Rightarrow> error option \<times> store" where
  "manager_add s m category_id seller_id =
     (case m of
        Shops_manager \<Rightarrow>
          (None,
           if (category_id, seller_id) \<in> set (category_shops s) then s
           else s\<lparr>category_shops := category_shops s @ [(category_id, seller_id)]\<rparr>)
      | Products_manager \<Rightarrow> (Some TypeError, s))"

text \<open>
  The loop of lines 72-77. The view reads the attribute \<^verbatim>\<open>sellers\<close> of the
  category; \<^verbatim>\<open>category_object.save()\<close> rewrites the row with the values it has.
\<close>

fun import_categories :: "store \<Rightarrow> nat \<Rightarrow> category_entry list \<Rightarrow> error option \<times> store" where
  "import_categories s seller_id [] = (None, s)"
| "import_categories s seller_id (category # rest) =
     (case Category_get_or_create s (ce_id category) (ce_name category) of
        (Inl e, s1) \<Rightarrow> (Some e, s1)
      | (Inr category_object, s1) \<Rightarrow>
          (case Category_manager ''sellers'' of
             Inl e \<Rightarrow> (Some e, s1)
           | Inr m \<Rightarrow>
               (case manager_add s1 m (cg_id category_object) seller_id of
                  (Some e, s2) \<Rightarrow> (Some e, s2)
                | (None, s2) \<Rightarrow> import_categories s2 seller_id rest)))"

text \<open>The loop of lines 95-101 over \<^verbatim>\<open>item["parameters"].items()\<close>.\<close>

fun import_parameters :: "store \<Rightarrow> nat \<Rightarrow> (string \<times> string) list \<Rightarrow> error option \<times> store" where
  "import_parameters s product_info_id [] = (None, s)"
| "import_parameters s product_info_id ((name, v) # rest) =
     (case Parameter_get_or_create s name of
        (Inl e, s1) \<Rightarrow> (Some e, s1)
      | (Inr parameter_object, s1) \<Rightarrow>
          import_parameters
            (ProductParameter_create s1 product_info_id (pm_id parameter_object) v)
            product_info_id rest)"

text \<open>The body of the loop of lines 81-101 for one good.\<close>

definition import_item :: "store \<Rightarrow> nat \<Rightarrow> good \<Rightarrow> error option \<times> store" where
  "import_item s seller_id item =
     (case Product_get_or_create s (gd_name item) (gd_category item) of
        (Inl e, s1) \<Rightarrow> (Some e, s1)
      | (Inr product, s1) \<Rightarrow>
          (case ProductInfo_create s1 (gd_model item) (pr_id product) seller_id
                  (gd_quantity item) (gd_price item) (gd_price_rrc item) (gd_id item) of
             (product_info, s2) \<Rightarrow>
               import_parameters s2 (pi_id product_info) (gd_parameters item)))"

fun import_goods :: "store \<Rightarrow> nat \<Rightarrow> good list \<Rightarrow> error option \<times> store" where
  "import_goods s seller_id [] = (None, s)"
| "import_goods s seller_id (item # rest) =
     (case import_item s seller_id item of
        (Some e, s1) \<Rightarrow> (Some e, s1)
      | (None, s1) \<Rightarrow> import_goods s1 seller_id rest)"

text \<open>Lines 68-103: what the view does with the parsed document.\<close>

definition import_catalog :: "store \<Rightarrow> nat \<Rightarrow> document \<Rightarrow> response result" where
  "import_catalog s user_id data =
     (case Seller_get_or_create s (dc_seller data) user_id of
        (Inl e, s1) \<Rightarrow> (Inl e, s1)
      | (Inr seller, s1) \<Rightarrow>
          (case import_categories s1 (sl_id seller) (dc_categories data) of
             (Some e, s2) \<Rightarrow> (Inl e, s2)
           | (None, s2) \<Rightarrow>
               (case import_goods (ProductInfo_delete_seller s2 (sl_id seller)) (sl_id seller)
                       (dc_goods data) of
                  (Some e, s3) \<Rightarrow> (Inl e, s3)
                | (None, s3) \<Rightarrow> (Inr (JsonResponse Status_True 200), s3))))"

text \<open>
  The view. \<^verbatim>\<open>URLValidator\<close> and the remote document are not code of the
  repository: \<open>validate_url\<close> gives the message of the \<^verbatim>\<open>ValidationError\<close> it
  raises, if any, and \<open>fetch\<close> gives what \<^verbatim>\<open>load_yaml(get(url).content)\<close> returns
  or raises for a URL.
\<close>

definition CatalogView_post ::
  "(string \<Rightarrow> string option) \<Rightarrow> (string \<Rightarrow> error + document) \<Rightarrow>
   store \<Rightarrow> User option \<Rightarrow> string option \<Rightarrow> response result" where
  "CatalogView_post validate_url fetch s user url =
     (case user of
        None \<Rightarrow> (Inr (JsonResponse (Error ''Log in required'') 403), s)
      | Some u \<Rightarrow>
          if us_type u \<noteq> ''seller'' then (Inr (JsonResponse (Error ''Only for sellers'') 403), s)
          else
            (case url of
               None \<Rightarrow>
                 (Inr (JsonResponse (Error ''All required arguments not provided'') 200), s)
             | Some url' \<Rightarrow>
                 if url' = [] then
                   (Inr (JsonResponse (Error ''All required arguments not provided'') 200), s)
                 else
                   (case validate_url url' of
                      Some msg \<Rightarrow> (Inr (JsonResponse (Error msg) 200), s)
                    | None \<Rightarrow>
                        (case fetch url' of
                           Inl e \<Rightarrow> (Inl e, s)
                         | Inr data \<Rightarrow> import_catalog s (us_id u) data))))"

section \<open>Request payloads\<close>

text \<open>
  What \<^verbatim>\<open>ujson.loads\<close> returns. A JSON object is the list of its entries; numbers
  with a fraction do not occur in the payloads below.
\<close>

datatype json =
    JNull
  | JBool bool
  | JInt int
  | JStr string
  | JList "json list"
  | JObj "(string \<times> json) list"

text \<open>
  The argument \<^verbatim>\<open>items\<close> of the basket views that decode JSON: absent or empty
  (\<^verbatim>\<open>if items_string\<close> is false); a non-empty string that \<^verbatim>\<open>load_json\<close>
  rejects with \<^verbatim>\<open>ValueError\<close>; or a non-empty string together with the value
  \<^verbatim>\<open>load_json\<close> returns for it.
\<close>

datatype items_arg = No_items | Malformed | Parsed json

text \<open>
  Python's \<^verbatim>\<open>for x in v\<close> over a decoded value: a list gives its elements, a dict
  its keys, a string its characters; the other values are not iterable.
\<close>

definition py_iter :: "json \<Rightarrow> error + json list" where
  "py_iter v =
     (case v of
        JList xs \<Rightarrow> Inr xs
      | JObj kvs \<Rightarrow> Inr (map (\<lambda>kv. JStr (fst kv)) kvs)
      | JStr str \<Rightarrow> Inr (map (\<lambda>c. JStr [c]) str)
      | _ \<Rightarrow> Inl TypeError)"

text \<open>\<^verbatim>\<open>d.update({k: v})\<close> on a dict.\<close>

definition dict_update :: "(string \<times> json) list \<Rightarrow> string \<Rightarrow> json \<Rightarrow> (string \<times> json) list" where
  "dict_update kvs k v =
     (if k \<in> set (map fst kvs) then map (\<lambda>kv. if fst kv = k then (k, v) else kv) kvs
      else kvs @ [(k, v)])"

text \<open>
  A string is the list of its characters, each a code point below 256. There
  \<^verbatim>\<open>str.isdigit\<close> holds of the ten decimal digits and of the superscripts
  U+00B2, U+00B3 and U+00B9, while \<^verbatim>\<open>int\<close>, and with it the conversion of a
  value given for an integer column, accepts a string that passed \<^verbatim>\<open>isdigit\<close> only
  when all of its characters are decimal digits (\<^verbatim>\<open>str.isdecimal\<close>), and raises
  \<^verbatim>\<open>ValueError\<close> otherwise. \<open>int_of_digits\<close> is the value of a string of
  decimal digits.
\<close>

definition isdigit :: "string \<Rightarrow> bool" where
  "isdigit str =
     (str \<noteq> []
      \<and> list_all (\<lambda>c. c \<in> set ''0123456789'' \<or> c \<in> set [CHR 0xB2, CHR 0xB3, CHR 0xB9]) str)"

definition isdecimal :: "string \<Rightarrow> bool" where
  "isdecimal str = (str \<noteq> [] \<and> list_all (\<lambda>c. c \<in> set ''0123456789'') str)"

definition int_of_digits :: "string \<Rightarrow> nat" where
  "int_of_digits str = foldl (\<lambda>n c. 10 * n + (of_char c - 48)) 0 str"

fun split_comma :: "string \<Rightarrow> string list" where
  "split_comma [] = [[]]"
| "split_comma (c # cs) =
     (if c = CHR '','' then [] # split_comma cs
      else (case split_comma cs of
              [] \<Rightarrow> [[c]]
            | w # ws \<Rightarrow> (c # w) # ws))"

section \<open>Basket mutation: BasketView (views.py, lines 291-395)\<close>

text \<open>
  \<^verbatim>\<open>OrderItem.objects.filter(order_id=..., id=...).update(quantity=...)\<close>: the number
  of rows matched. Integer columns hold 64 bits: an id outside that range is the id of no
  row and the statement is not run; a quantity outside it cannot be bound to the statement
  (\<^verbatim>\<open>OverflowError\<close>, nothing written). A negative quantity breaks the check
  constraint of the \<^verbatim>\<open>PositiveIntegerField\<close> as soon as a row is written.
\<close>

definition int64 :: "int \<Rightarrow> bool" where
  "int64 v = (- (2 ^ 63) \<le> v \<and> v < 2 ^ 63)"

definition OrderItem_update_quantity :: "store \<Rightarrow> nat \<Rightarrow> int \<Rightarrow> int \<Rightarrow> nat result" where
  "OrderItem_update_quantity s order_id item_id quantity =
     (let hit = (\<lambda>x. oi_order x = order_id \<and> int (oi_id x) = item_id) in
      if \<not> int64 item_id then (Inr 0, s)
      else if \<not> int64 quantity then (Inl OverflowError, s)
      else if filter hit (order_items s) = [] then (Inr 0, s)
      else if quantity < 0 then (Inl IntegrityError, s)
      else (Inr (length (filter hit (order_items s))),
            s\<lparr>order_items :=
                 map (\<lambda>x. if hit x then x\<lparr>oi_quantity := nat quantity\<rparr> else x)
                   (order_items s)\<rparr>))"

text \<open>
  \<^verbatim>\<open>OrderItem.objects.filter(query).delete()[0]\<close>, where \<^verbatim>\<open>query\<close> is the
  disjunction of \<^verbatim>\<open>Q(order_id=basket.id, id=k)\<close> over the ids \<open>k\<close>. No model
  points to \<^verbatim>\<open>OrderItem\<close>, so nothing cascades.
\<close>

definition OrderItem_delete :: "store \<Rightarrow> nat \<Rightarrow> nat list \<Rightarrow> nat \<times> store" where
  "OrderItem_delete s order_id ids =
     (let hit = (\<lambda>x. oi_order x = order_id \<and> oi_id x \<in> set ids) in
      (length (filter hit (order_items s)),
       s\<lparr>order_items := filter (\<lambda>x. \<not> hit x) (order_items s)\<rparr>))"

text \<open>
  Modelled from the spec: \<^verbatim>\<open>OrderItemSerializer\<close> of backend/serializers.py, which
  is not among the sources. Sections 4.3 and 6 of the specification give the entry as
  \<^verbatim>\<open>{product_info, quantity}\<close>, to which the view adds \<^verbatim>\<open>order\<close>; each entry
  creates an order item bound to that basket, referencing the product info and a snapshot
  of its seller. \<open>OrderItemSerializer_is_valid\<close> is \<^verbatim>\<open>serializer.is_valid()\<close>:
  the three keys hold integers, the quantity fits the column and the two rows exist.
  \<open>OrderItemSerializer_save\<close> is \<^verbatim>\<open>serializer.save()\<close>: it inserts the row.
  The specification speaks of a uniqueness violation for a duplicate product in the
  basket, but models.py declares no unique constraint on \<^verbatim>\<open>OrderItem\<close>
  (lines 191-217), so the database accepts a second row for the same product; the insert
  fails on the foreign key \<^verbatim>\<open>OrderItem.product\<close> only.
\<close>

definition OrderItemSerializer_is_valid :: "store \<Rightarrow> json \<Rightarrow> bool" where
  "OrderItemSerializer_is_valid s data =
     (case data of
        JObj kvs \<Rightarrow>
          (case (map_of kvs ''order'', map_of kvs ''product_info'', map_of kvs ''quantity'') of
             (Some (JInt ord), Some (JInt info), Some (JInt quantity)) \<Rightarrow>
               0 \<le> quantity \<and> int64 quantity
               \<and> list_ex (\<lambda>x. int (od_id x) = ord) (orders s)
               \<and> list_ex (\<lambda>x. int (pi_id x) = info) (product_infos s)
           | _ \<Rightarrow> False)
      | _ \<Rightarrow> False)"

definition OrderItemSerializer_save :: "store \<Rightarrow> json \<Rightarrow> error option \<times> store" where
  "OrderItemSerializer_save s data =
     (case data of
        JObj kvs \<Rightarrow>
          (case (map_of kvs ''order'', map_of kvs ''product_info'', map_of kvs ''quantity'') of
             (Some (JInt ord), Some (JInt info), Some (JInt quantity)) \<Rightarrow>
               (case filter (\<lambda>x. int (pi_id x) = info) (product_infos s) of
                  [] \<Rightarrow> (Some IntegrityError, s)
                | product_info # _ \<Rightarrow>
                    (None,
                     s\<lparr>order_items := order_items s @
                          [\<lparr>oi_id = seq_order_item s, oi_order = nat ord,
                            oi_product = nat info, oi_shop = pi_seller product_info,
                            oi_quantity = nat quantity\<rparr>],
                       seq_order_item := Suc (seq_order_item s)\<rparr>))
           | _ \<Rightarrow> (Some TypeError, s))
      | _ \<Rightarrow> (Some TypeError, s))"

text \<open>
  The body of the loop of lines 310-327 for one element. \<^verbatim>\<open>order_item.update\<close>
  exists on a dict only. An \<^verbatim>\<open>IntegrityError\<close> of \<^verbatim>\<open>save\<close> is answered with a
  failure response, any other exception leaves the view. The response built in the
  \<^verbatim>\<open>else\<close> branch of line 323 is dropped. The \<^verbatim>\<open>return\<close> of line 325 stands
  inside the loop body, so the body always leaves the view.
\<close>

definition post_order_item :: "store \<Rightarrow> Order \<Rightarrow> nat \<Rightarrow> json \<Rightarrow> response result" where
  "post_order_item s basket objects_created order_item =
     (case order_item of
        JObj kvs \<Rightarrow>
          (let data = JObj (dict_update kvs ''order'' (JInt (int (od_id basket)))) in
           if OrderItemSerializer_is_valid s data then
             (case OrderItemSerializer_save s data of
                (Some IntegrityError, s1) \<Rightarrow> (Inr (JsonResponse (Errors ''IntegrityError'') 200), s1)
              | (Some e, s1) \<Rightarrow> (Inl e, s1)
              | (None, s1) \<Rightarrow> (Inr (JsonResponse (Created_objects (objects_created + 1)) 200), s1))
           else (Inr (JsonResponse (Created_objects objects_created) 200), s))
      | _ \<Rightarrow> (Inl AttributeError, s))"

text \<open>
  The loop of lines 310-327: the first element returns; when there is none the view
  falls through to line 329.
\<close>

fun post_loop :: "store \<Rightarrow> Order \<Rightarrow> nat \<Rightarrow> json list \<Rightarrow> response result" where
  "post_loop s basket objects_created [] =
     (Inr (JsonResponse (Errors ''Necessary arguments are not specified'') 200), s)"
| "post_loop s basket objects_created (order_item # rest) =
     post_order_item s basket objects_created order_item"

text \<open>
  \<^verbatim>\<open>BasketView.post\<close>. When \<^verbatim>\<open>load_json\<close> raises, the response of line 303 is
  built and dropped, the basket is fetched or created, and the loop reads the unbound
  \<^verbatim>\<open>items_dict\<close>.
\<close>

definition BasketView_post :: "store \<Rightarrow> User option \<Rightarrow> items_arg \<Rightarrow> response result" where
  "BasketView_post s user items =
     (case user of
        None \<Rightarrow> (Inr (JsonResponse (Error ''Log in required'') 403), s)
      | Some u \<Rightarrow>
          (case items of
             No_items \<Rightarrow>
               (Inr (JsonResponse (Errors ''Necessary arguments are not specified'') 200), s)
           | _ \<Rightarrow>
               (case Order_get_or_create s (us_id u) ''basket'' of
                  (Inl e, s1) \<Rightarrow> (Inl e, s1)
                | (Inr basket, s1) \<Rightarrow>
                    (case items of
                       Parsed items_dict \<Rightarrow>
                         (case py_iter items_dict of
                            Inl e \<Rightarrow> (Inl e, s1)
                          | Inr entries \<Rightarrow> post_loop s1 basket 0 entries)
                     | _ \<Rightarrow> (Inl UnboundLocalError, s1)))))"

text \<open>
  \<^verbatim>\<open>BasketView.delete\<close>, lines 333-361. \<open>items\<close> is
  \<^verbatim>\<open>request.data.get("items")\<close>. The loop of lines 349-352 collects the entries
  that pass \<^verbatim>\<open>isdigit\<close>; \<^verbatim>\<open>filter(query)\<close> of line 355 converts each of them
  for the integer column \<^verbatim>\<open>id\<close> and raises \<^verbatim>\<open>ValueError\<close> at the first
  that is no decimal number, before anything is deleted.
\<close>

definition BasketView_delete :: "store \<Rightarrow> User option \<Rightarrow> string option \<Rightarrow> response result" where
  "BasketView_delete s user items =
     (case user of
        None \<Rightarrow> (Inr (JsonResponse (Error ''Log in required'') 403), s)
      | Some u \<Rightarrow>
          (case items of
             None \<Rightarrow>
               (Inr (JsonResponse (Errors ''Necessary arguments are not specified'') 200), s)
           | Some items_string \<Rightarrow>
               if items_string = [] then
                 (Inr (JsonResponse (Errors ''Necessary arguments are not specified'') 200), s)
               else
                 (case Order_get_or_create s (us_id u) ''basket'' of
                    (Inl e, s1) \<Rightarrow> (Inl e, s1)
                  | (Inr basket, s1) \<Rightarrow>
                      (let digits = filter isdigit (split_comma items_string) in
                       if digits \<noteq> [] then
                         if list_all isdecimal digits then
                           (case OrderItem_delete s1 (od_id basket)
                                   (map int_of_digits digits) of
                              (deleted_count, s2) \<Rightarrow>
                                (Inr (JsonResponse (Deleted_objects deleted_count) 200), s2))
                         else (Inl ValueError, s1)
                       else
                         (Inr (JsonResponse (Errors ''Necessary arguments are not specified'')
                                 200), s1)))))"

text \<open>
  The loop of lines 382-389. \<^verbatim>\<open>order_item["id"]\<close> needs a dict with that key;
  \<^verbatim>\<open>type(v) == int\<close> holds for JSON integers only, and the second test is not
  evaluated when the first fails.
\<close>

fun put_loop :: "store \<Rightarrow> Order \<Rightarrow> nat \<Rightarrow> json list \<Rightarrow> response result" where
  "put_loop s basket objects_updated [] =
     (Inr (JsonResponse (Updated_objects objects_updated) 200), s)"
| "put_loop s basket objects_updated (order_item # rest) =
     (case order_item of
        JObj kvs \<Rightarrow>
          (case map_of kvs ''id'' of
             None \<Rightarrow> (Inl KeyError, s)
           | Some (JInt item_id) \<Rightarrow>
               (case map_of kvs ''quantity'' of
                  None \<Rightarrow> (Inl KeyError, s)
                | Some (JInt quantity) \<Rightarrow>
                    (case OrderItem_update_quantity s (od_id basket) item_id quantity of
                       (Inl e, s1) \<Rightarrow> (Inl e, s1)
                     | (Inr n, s1) \<Rightarrow> put_loop s1 basket (objects_updated + n) rest)
                | Some _ \<Rightarrow> put_loop s basket objects_updated rest)
           | Some _ \<Rightarrow> put_loop s basket objects_updated rest)
      | _ \<Rightarrow> (Inl TypeError, s))"

definition BasketView_put :: "store \<Rightarrow> User option \<Rightarrow> items_arg \<Rightarrow> response result" where
  "BasketView_put s user items =
     (case user of
        None \<Rightarrow> (Inr (JsonResponse (Error ''Log in required'') 403), s)
      | Some u \<Rightarrow>
          (case items of
             No_items \<Rightarrow>
               (Inr (JsonResponse (Errors ''Necessary arguments are not specified'') 200), s)
           | _ \<Rightarrow>
               (case Order_get_or_create s (us_id u) ''basket'' of
                  (Inl e, s1) \<Rightarrow> (Inl e, s1)
                | (Inr basket, s1) \<Rightarrow>
                    (case items of
                       Parsed items_dict \<Rightarrow>
                         (case py_iter items_dict of
                            Inl e \<Rightarrow> (Inl e, s1)
                          | Inr entries \<Rightarrow> put_loop s1 basket 0 entries)
                     | _ \<Rightarrow> (Inl UnboundLocalError, s1)))))"

section \<open>Field lookups against the schema\<close>

text \<open>
  The models of models.py, the column names of each (a foreign key \<^verbatim>\<open>f\<close> has the
  column \<^verbatim>\<open>f_id\<close>) and its relations: the foreign keys and many-to-many fields it
  declares, and the reverse side of every relation that points to it under the
  \<^verbatim>\<open>related_name\<close> given there. For \<^verbatim>\<open>User\<close> the columns are the ones
  models.py adds or the views read.
\<close>

datatype model =
    M_User
  | M_Contact
  | M_Seller
  | M_Category
  | M_Product
  | M_ProductInfo
  | M_Parameter
  | M_ProductParameter
  | M_Order
  | M_OrderItem
  | M_ConfirmEmailToken

fun columns :: "model \<Rightarrow> string list" where
  "columns M_User = [''id'', ''email'', ''type'', ''is_active'']"
| "columns M_Contact = [''id'', ''user_id'', ''address'', ''phone'']"
| "columns M_Seller = [''id'', ''user_id'', ''name'', ''state'', ''url'']"
| "columns M_Category = [''id'', ''name'']"
| "columns M_Product = [''id'', ''name'', ''category_id'']"
| "columns M_ProductInfo =
     [''id'', ''name'', ''product_id'', ''seller_id'', ''quantity'', ''price'', ''price_rrc'',
      ''article'']"
| "columns M_Parameter = [''id'', ''name'']"
| "columns M_ProductParameter = [''id'', ''product_info_id'', ''parameter_id'', ''value'']"
| "columns M_Order = [''id'', ''user_id'', ''dt'', ''state'']"
| "columns M_OrderItem = [''id'', ''order_id'', ''product_id'', ''shop_id'', ''quantity'']"
| "columns M_ConfirmEmailToken = [''id'', ''user_id'', ''created_at'', ''key'']"

fun relations :: "model \<Rightarrow> (string \<times> model) list" where
  "relations M_User =
     [(''contacts'', M_Contact), (''seller'', M_Seller),
      (''confirm_email_tokens'', M_ConfirmEmailToken)]"
| "relations M_Contact = [(''user'', M_User), (''orders'', M_Order)]"
| "relations M_Seller =
     [(''user'', M_User), (''categories'', M_Category), (''product_infos'', M_ProductInfo),
      (''ordered_items'', M_OrderItem)]"
| "relations M_Category = [(''shops'', M_Seller), (''products'', M_Product)]"
| "relations M_Product = [(''category'', M_Category), (''product_infos'', M_ProductInfo)]"
| "relations M_ProductInfo =
     [(''product'', M_Product), (''seller'', M_Seller),
      (''product_parameters'', M_ProductParameter), (''ordered_items'', M_OrderItem)]"
| "relations M_Parameter = [(''product_parameters'', M_ProductParameter)]"
| "relations M_ProductParameter =
     [(''product_info'', M_ProductInfo), (''parameter'', M_Parameter)]"
| "relations M_Order = [(''user'', M_Contact), (''ordered_items'', M_OrderItem)]"
| "relations M_OrderItem =
     [(''order'', M_Order), (''product'', M_ProductInfo), (''shop'', M_Seller)]"
| "relations M_ConfirmEmailToken = [(''user'', M_User)]"

text \<open>
  Whether a lookup \<^verbatim>\<open>a__b__c\<close>, given as the list of its names, resolves from a
  model: every name but the last is a relation of the model reached so far, the last is a
  column or a relation. Django raises \<^verbatim>\<open>FieldError\<close> for a lookup that does not
  resolve, in \<^verbatim>\<open>filter\<close> and \<^verbatim>\<open>annotate\<close> as soon as they are called.
\<close>

fun names_to_path :: "model \<Rightarrow> string list \<Rightarrow> bool" where
  "names_to_path m [] = True"
| "names_to_path m [n] = (n \<in> set (columns m) \<or> n \<in> set (map fst (relations m)))"
| "names_to_path m (n # n' # ns) =
     (case map_of (relations m) n of
        None \<Rightarrow> False
      | Some m' \<Rightarrow> names_to_path m' (n' # ns))"

section \<open>Order aggregation: the three listing views\<close>

text \<open>
  \<^verbatim>\<open>Sum(F("ordered_items__quantity") * F("ordered_items__...__price"))\<close> for one
  order: the sum over the rows of the join of the order with its items and each item's
  product info, restricted to the items \<open>keep\<close> lets through (the join of a
  \<^verbatim>\<open>filter\<close> on the same relation is reused by \<^verbatim>\<open>annotate\<close>). SQL's
  \<^verbatim>\<open>SUM\<close> over no row is \<^verbatim>\<open>NULL\<close>.
\<close>

definition total_sum :: "store \<Rightarrow> (OrderItem \<Rightarrow> bool) \<Rightarrow> Order \<Rightarrow> nat option" where
  "total_sum s keep ord =
     (let joined =
            concat
              (map (\<lambda>i. map (\<lambda>p. oi_quantity i * pi_price p)
                            (filter (\<lambda>p. pi_id p = oi_product i) (product_infos s)))
                 (filter (\<lambda>i. oi_order i = od_id ord \<and> keep i) (order_items s)))
      in if joined = [] then None else Some (sum_list joined))"

text \<open>
  The query of a listing view, given the lookups it names: those of \<^verbatim>\<open>filter\<close>,
  \<^verbatim>\<open>exclude\<close> and \<^verbatim>\<open>annotate\<close>, which are resolved when the query is built,
  then those of \<^verbatim>\<open>select_related\<close>, which are resolved when the serializer
  iterates the query. \<^verbatim>\<open>distinct()\<close> drops repeated rows.
  \<^verbatim>\<open>prefetch_related\<close> reads the related rows in queries of their own after the
  orders are fetched and changes neither the rows nor the annotation.
\<close>

definition listing ::
  "string list list \<Rightarrow> string list list \<Rightarrow> (Order \<times> nat option) list \<Rightarrow> error + response" where
  "listing eager selected rows =
     (if \<not> list_all (names_to_path M_Order) eager then Inl FieldError
      else if \<not> list_all (names_to_path M_Order) selected then Inl FieldError
      else Inr (Response (remdups rows)))"

text \<open>\<^verbatim>\<open>BasketView.get\<close>, lines 266-289.\<close>

definition BasketView_get :: "store \<Rightarrow> User option \<Rightarrow> error + response" where
  "BasketView_get s user =
     (case user of
        None \<Rightarrow> Inr (JsonResponse (Error ''Log in required'') 403)
      | Some u \<Rightarrow>
          listing
            [[''user_id''], [''state''], [''ordered_items'', ''quantity''],
             [''ordered_items'', ''product_info'', ''price'']]
            []
            (map (\<lambda>x. (x, total_sum s (\<lambda>i. True) x))
               (filter (\<lambda>x. od_user x = us_id u \<and> od_state x = ''basket'') (orders s))))"

text \<open>\<^verbatim>\<open>OrderView.get\<close>, lines 555-578.\<close>

definition OrderView_get :: "store \<Rightarrow> User option \<Rightarrow> error + response" where
  "OrderView_get s user =
     (case user of
        None \<Rightarrow> Inr (JsonResponse (Error ''Log in required'') 403)
      | Some u \<Rightarrow>
          listing
            [[''user_id''], [''state''], [''ordered_items'', ''quantity''],
             [''ordered_items'', ''product_info'', ''price'']]
            [[''contact'']]
            (map (\<lambda>x. (x, total_sum s (\<lambda>i. True) x))
               (filter (\<lambda>x. od_user x = us_id u \<and> od_state x \<noteq> ''basket'') (orders s))))"

text \<open>
  \<^verbatim>\<open>SellerOrdersView.get\<close>, lines 439-471. The filter keeps the orders with an item
  whose product info belongs to a seller of the caller, and the sum runs over those items.
\<close>

definition sold_by :: "store \<Rightarrow> nat \<Rightarrow> OrderItem \<Rightarrow> bool" where
  "sold_by s user_id i =
     list_ex (\<lambda>p. pi_id p = oi_product i
                \<and> list_ex (\<lambda>x. sl_id x = pi_seller p \<and> sl_user x = Some user_id) (sellers s))
       (product_infos s)"

definition SellerOrdersView_get :: "store \<Rightarrow> User option \<Rightarrow> error + response" where
  "SellerOrdersView_get s user =
     (case user of
        None \<Rightarrow> Inr (JsonResponse (Error ''Log in required'') 403)
      | Some u \<Rightarrow>
          if us_type u \<noteq> ''seller'' then Inr (JsonResponse (Error ''Only for sellers'') 403)
          else
            listing
              [[''ordered_items'', ''product_info'', ''seller'', ''user_id''], [''state''],
               [''ordered_items'', ''quantity''],
               [''ordered_items'', ''product_info'', ''price'']]
              [[''contact'']]
              (map (\<lambda>x. (x, total_sum s (sold_by s (us_id u)) x))
                 (filter (\<lambda>x. od_state x \<noteq> ''basket''
                             \<and> list_ex (\<lambda>i. oi_order i = od_id x \<and> sold_by s (us_id u) i)
                                  (order_items s))
                    (orders s))))"

section \<open>Order placement: OrderView.post (views.py, lines 580-606)\<close>

text \<open>
  \<^verbatim>\<open>QuerySet.update(**kwargs)\<close> on \<^verbatim>\<open>Order\<close>. Every keyword is looked up among
  the fields of the model first (\<^verbatim>\<open>FieldDoesNotExist\<close> for a name that is none of
  them, before the database is touched); the values of the integer columns are converted
  (\<^verbatim>\<open>ValueError\<close>); the rows that match are written, and the write fails on the
  foreign key \<^verbatim>\<open>Order.user\<close> when no contact has the new id. The result is the
  number of rows matched.
\<close>

datatype order_column = Col_id | Col_user | Col_dt | Col_state

definition Order_field :: "string \<Rightarrow> order_column option" where
  "Order_field name =
     (if name = ''id'' then Some Col_id
      else if name = ''user'' \<or> name = ''user_id'' then Some Col_user
      else if name = ''dt'' then Some Col_dt
      else if name = ''state'' then Some Col_state
      else None)"

definition Order_assign :: "string \<times> string \<Rightarrow> Order \<Rightarrow> Order" where
  "Order_assign kw x =
     (case Order_field (fst kw) of
        Some Col_id \<Rightarrow> x\<lparr>od_id := int_of_digits (snd kw)\<rparr>
      | Some Col_user \<Rightarrow> x\<lparr>od_user := int_of_digits (snd kw)\<rparr>
      | Some Col_dt \<Rightarrow> x\<lparr>od_dt := int_of_digits (snd kw)\<rparr>
      | Some Col_state \<Rightarrow> x\<lparr>od_state := snd kw\<rparr>
      | None \<Rightarrow> x)"

definition Order_update ::
  "store \<Rightarrow> (Order \<Rightarrow> bool) \<Rightarrow> (string \<times> string) list \<Rightarrow> nat result" where
  "Order_update s P kwargs =
     (if list_ex (\<lambda>kw. Order_field (fst kw) = None) kwargs then (Inl FieldDoesNotExist, s)
      else if list_ex (\<lambda>kw. Order_field (fst kw) \<noteq> Some Col_state \<and> \<not> isdecimal (snd kw)) kwargs
      then (Inl ValueError, s)
      else if filter P (orders s) = [] then (Inr 0, s)
      else if list_ex (\<lambda>kw. Order_field (fst kw) = Some Col_user
                           \<and> \<not> list_ex (\<lambda>c. ct_id c = int_of_digits (snd kw)) (contacts s))
                kwargs
      then (Inl IntegrityError, s)
      else (Inr (length (filter P (orders s))),
            s\<lparr>orders := map (\<lambda>x. if P x then fold Order_assign kwargs x else x) (orders s)\<rparr>))"

text \<open>
  The view. \<open>id_arg\<close> and \<open>contact_arg\<close> are \<^verbatim>\<open>request.data["id"]\<close> and
  \<^verbatim>\<open>request.data["contact"]\<close>, \<open>None\<close> for an absent key.
  \<^verbatim>\<open>filter(..., id=request.data["id"])\<close> converts the id for the integer column
  and raises \<^verbatim>\<open>ValueError\<close> for one that passed \<^verbatim>\<open>isdigit\<close> and is no
  decimal number. Only \<^verbatim>\<open>IntegrityError\<close> is caught (line 592). The signal of
  line 601 does not touch the tables.
\<close>

definition OrderView_post ::
  "store \<Rightarrow> User option \<Rightarrow> string option \<Rightarrow> string option \<Rightarrow> response result" where
  "OrderView_post s user id_arg contact_arg =
     (case user of
        None \<Rightarrow> (Inr (JsonResponse (Error ''Log in required'') 403), s)
      | Some u \<Rightarrow>
          (case (id_arg, contact_arg) of
             (Some order_id, Some contact) \<Rightarrow>
               if isdigit order_id then
                 if \<not> isdecimal order_id then (Inl ValueError, s)
                 else
                   (case Order_update s
                           (\<lambda>x. od_user x = us_id u \<and> od_id x = int_of_digits order_id)
                           [(''contact_id'', contact), (''state'', ''new'')] of
                      (Inl IntegrityError, s1) \<Rightarrow>
                        (Inr (JsonResponse (Errors ''The arguments are specified incorrectly'')
                                200), s1)
                    | (Inl e, s1) \<Rightarrow> (Inl e, s1)
                    | (Inr is_updated, s1) \<Rightarrow>
                        if is_updated \<noteq> 0 then (Inr (JsonResponse Status_True 200), s1)
                        else
                          (Inr (JsonResponse (Errors ''Necessary arguments are not specified'')
                                  200), s1))
               else
                 (Inr (JsonResponse (Errors ''Necessary arguments are not specified'') 200), s)
           | _ \<Rightarrow>
               (Inr (JsonResponse (Errors ''Necessary arguments are not specified'') 200), s)))"

section \<open>Properties: what is observed\<close>

text \<open>
  The catalog of a seller as the import claims speak of it: the seller's product-info rows
  in table order, each with its product, name, quantity, price, recommended price, article
  and the parameters attached to it (parameter and value). The primary keys of the rows
  are not part of it: a fresh import gives the rows new keys.
\<close>

definition attached :: "store \<Rightarrow> nat \<Rightarrow> (nat \<times> string) list" where
  "attached s info_id =
     map (\<lambda>x. (pp_parameter x, pp_value x))
       (filter (\<lambda>x. pp_product_info x = info_id) (product_parameters s))"

definition seller_catalog ::
  "store \<Rightarrow> nat \<Rightarrow> (nat \<times> string \<times> nat \<times> nat \<times> nat \<times> nat \<times> (nat \<times> string) list) list" where
  "seller_catalog s seller_id =
     map (\<lambda>x. (pi_product x, pi_name x, pi_quantity x, pi_price x, pi_price_rrc x,
                pi_article x, attached s (pi_id x)))
       (filter (\<lambda>x. pi_seller x = seller_id) (product_infos s))"

text \<open>
  What the database guarantees of the catalog tables: the primary keys of
  \<^verbatim>\<open>ProductInfo\<close> are distinct and below the sequence, and so is every
  \<^verbatim>\<open>product_info\<close> key a parameter row holds.
\<close>

definition catalog_wf :: "store \<Rightarrow> bool" where
  "catalog_wf s =
     (distinct (map pi_id (product_infos s))
      \<and> list_all (\<lambda>x. pi_id x < seq_product_info s) (product_infos s)
      \<and> list_all (\<lambda>x. pp_product_info x < seq_product_info s) (product_parameters s))"

text \<open>
  A get-or-create by a key never adds a row under a key that is taken: the rows \<open>ys\<close>
  of a later state hold, under every key present in \<open>xs\<close>, the rows \<open>xs\<close> holds.
\<close>

definition kept_by :: "('a \<Rightarrow> 'k) \<Rightarrow> 'a list \<Rightarrow> 'a list \<Rightarrow> bool" where
  "kept_by key xs ys =
     (\<forall>k. filter (\<lambda>x. key x = k) xs \<noteq> []
        \<longrightarrow> filter (\<lambda>x. key x = k) ys = filter (\<lambda>x. key x = k) xs)"

text \<open>The same for \<^verbatim>\<open>Order\<close>: distinct primary keys below the sequence.\<close>

definition orders_wf :: "store \<Rightarrow> bool" where
  "orders_wf s =
     (distinct (map od_id (orders s)) \<and> list_all (\<lambda>x. od_id x < seq_order s) (orders s))"

text \<open>The orders of a user in basket state, and the invariant that no user has two.\<close>

definition baskets_of :: "store \<Rightarrow> nat \<Rightarrow> Order list" where
  "baskets_of s user_id =
     filter (\<lambda>x. od_user x = user_id \<and> od_state x = ''basket'') (orders s)"

definition basket_singleton :: "store \<Rightarrow> bool" where
  "basket_singleton s =
     distinct (map od_user (filter (\<lambda>x. od_state x = ''basket'') (orders s)))"

text \<open>A call of one of the three mutating basket operations, and a sequence of calls.\<close>

datatype basket_call =
    Add_call "User option" items_arg
  | Update_call "User option" items_arg
  | Delete_call "User option" "string option"

fun basket_step :: "store \<Rightarrow> basket_call \<Rightarrow> store" where
  "basket_step s (Add_call user items) = snd (BasketView_post s user items)"
| "basket_step s (Update_call user items) = snd (BasketView_put s user items)"
| "basket_step s (Delete_call user items) = snd (BasketView_delete s user items)"

definition basket_run :: "store \<Rightarrow> basket_call list \<Rightarrow> store" where
  "basket_run s calls = foldl basket_step s calls"

text \<open>
  The entries of the list of a basket delete call that pass \<^verbatim>\<open>isdigit\<close>, and the
  ids the list names: the values of its entries that are decimal numbers.
\<close>

definition digit_entries :: "string \<Rightarrow> string list" where
  "digit_entries items_string = filter isdigit (split_comma items_string)"

definition numeric_ids :: "string \<Rightarrow> nat list" where
  "numeric_ids items_string = map int_of_digits (filter isdecimal (split_comma items_string))"

section \<open>Example data\<close>

definition empty_store :: store where
  "empty_store =
     \<lparr>contacts = [], sellers = [], categories = [], category_shops = [], products = [],
      product_infos = [], parameters = [], product_parameters = [], orders = [],
      order_items = [], seq_seller = 1, seq_product = 1, seq_product_info = 1,
      seq_parameter = 1, seq_product_parameter = 1, seq_order = 1, seq_order_item = 1,
      clock = 0\<rparr>"

text \<open>The document of the example scenario of section 8 of the specification.\<close>

definition example_document :: document where
  "example_document =
     \<lparr>dc_seller = ''Acme'',
      dc_categories = [\<lparr>ce_id = 1, ce_name = ''Tools''\<rparr>],
      dc_goods =
        [\<lparr>gd_id = 10, gd_category = 1, gd_name = ''Hammer'', gd_model = ''H1'',
          gd_quantity = 5, gd_price = 1000, gd_price_rrc = 1200,
          gd_parameters = [(''Weight'', ''1kg'')]\<rparr>]\<rparr>"

text \<open>The same goods in a document that lists no category.\<close>

definition goods_document :: document where
  "goods_document = example_document\<lparr>dc_categories := []\<rparr>"

definition seller_user :: User where
  "seller_user = \<lparr>us_id = 1, us_type = ''seller''\<rparr>"

definition buyer :: User where
  "buyer = \<lparr>us_id = 1, us_type = ''buyer''\<rparr>"

definition other_buyer :: User where
  "other_buyer = \<lparr>us_id = 2, us_type = ''buyer''\<rparr>"

text \<open>
  A shop with one category, one product and two listings, and two contacts whose ids
  are those of the two buyers.
\<close>

definition shop_store :: store where
  "shop_store =
     empty_store
       \<lparr>contacts :=
          [\<lparr>ct_id = 1, ct_user = 1, ct_address = ''1 Main St'', ct_phone = ''100''\<rparr>,
           \<lparr>ct_id = 2, ct_user = 2, ct_address = ''2 Side St'', ct_phone = ''200''\<rparr>],
        sellers :=
          [\<lparr>sl_id = 1, sl_user = Some 9, sl_name = ''Acme'', sl_state = True, sl_url = None\<rparr>],
        categories := [\<lparr>cg_id = 1, cg_name = ''Tools''\<rparr>],
        products := [\<lparr>pr_id = 1, pr_name = ''Hammer'', pr_category = 1\<rparr>],
        product_infos :=
          [\<lparr>pi_id = 1, pi_name = ''H1'', pi_product = 1, pi_seller = 1, pi_quantity = 5,
            pi_price = 100, pi_price_rrc = 120, pi_article = 10\<rparr>,
           \<lparr>pi_id = 2, pi_name = ''H2'', pi_product = 1, pi_seller = 1, pi_quantity = 7,
            pi_price = 50, pi_price_rrc = 60, pi_article = 11\<rparr>],
        seq_seller := 2, seq_product := 2, seq_product_info := 3\<rparr>"

text \<open>
  The basket of the example scenario of section 8: quantity 2 of the listing priced 100
  and quantity 3 of the listing priced 50.
\<close>

definition hammer_entry :: json where
  "hammer_entry = JObj [(''product_info'', JInt 1), (''quantity'', JInt 2)]"

definition second_entry :: json where
  "second_entry = JObj [(''product_info'', JInt 2), (''quantity'', JInt 3)]"

text \<open>The shop after each of the two buyers has put one entry into a basket.\<close>

definition two_baskets_store :: store where
  "two_baskets_store =
     basket_run shop_store
       [Add_call (Some buyer) (Parsed (JList [hammer_entry])),
        Add_call (Some other_buyer) (Parsed (JList [second_entry]))]"

section \<open>What each database operation leaves alone\<close>

lemma Seller_get_or_create_frame [simp]:
  "contacts (snd (Seller_get_or_create s name user_id)) = contacts s"
  "categories (snd (Seller_get_or_create s name user_id)) = categories s"
  "category_shops (snd (Seller_get_or_create s name user_id)) = category_shops s"
  "products (snd (Seller_get_or_create s name user_id)) = products s"
  "product_infos (snd (Seller_get_or_create s name user_id)) = product_infos s"
  "parameters (snd (Seller_get_or_create s name user_id)) = parameters s"
  "product_parameters (snd (Seller_get_or_create s name user_id)) = product_parameters s"
  "orders (snd (Seller_get_or_create s name user_id)) = orders s"
  "order_items (snd (Seller_get_or_create s name user_id)) = order_items s"
  "seq_product_info (snd (Seller_get_or_create s name user_id)) = seq_product_info s"
  "seq_order (snd (Seller_get_or_create s name user_id)) = seq_order s"
  by (simp_all add: Seller_get_or_create_def Let_def split: got.splits)

lemma Category_get_or_create_frame [simp]:
  "contacts (snd (Category_get_or_create s cid name)) = contacts s"
  "sellers (snd (Category_get_or_create s cid name)) = sellers s"
  "category_shops (snd (Category_get_or_create s cid name)) = category_shops s"
  "products (snd (Category_get_or_create s cid name)) = products s"
  "product_infos (snd (Category_get_or_create s cid name)) = product_infos s"
  "parameters (snd (Category_get_or_create s cid name)) = parameters s"
  "product_parameters (snd (Category_get_or_create s cid name)) = product_parameters s"
  "orders (snd (Category_get_or_create s cid name)) = orders s"
  "order_items (snd (Category_get_or_create s cid name)) = order_items s"
  "seq_product_info (snd (Category_get_or_create s cid name)) = seq_product_info s"
  "seq_order (snd (Category_get_or_create s cid name)) = seq_order s"
  by (simp_all add: Category_get_or_create_def Let_def split: got.splits)

lemma Product_get_or_create_frame [simp]:
  "contacts (snd (Product_get_or_create s name cid)) = contacts s"
  "sellers (snd (Product_get_or_create s name cid)) = sellers s"
  "categories (snd (Product_get_or_create s name cid)) = categories s"
  "category_shops (snd (Product_get_or_create s name cid)) = category_shops s"
  "product_infos (snd (Product_get_or_create s name cid)) = product_infos s"
  "parameters (snd (Product_get_or_create s name cid)) = parameters s"
  "product_parameters (snd (Product_get_or_create s name cid)) = product_parameters s"
  "orders (snd (Product_get_or_create s name cid)) = orders s"
  "order_items (snd (Product_get_or_create s name cid)) = order_items s"
  "seq_product_info (snd (Product_get_or_create s name cid)) = seq_product_info s"
  "seq_order (snd (Product_get_or_create s name cid)) = seq_order s"
  by (simp_all add: Product_get_or_create_def Let_def split: got.splits)

lemma Parameter_get_or_create_frame [simp]:
  "contacts (snd (Parameter_get_or_create s name)) = contacts s"
  "sellers (snd (Parameter_get_or_create s name)) = sellers s"
  "categories (snd (Parameter_get_or_create s name)) = categories s"
  "category_shops (snd (Parameter_get_or_create s name)) = category_shops s"
  "products (snd (Parameter_get_or_create s name)) = products s"
  "product_infos (snd (Parameter_get_or_create s name)) = product_infos s"
  "product_parameters (snd (Parameter_get_or_create s name)) = product_parameters s"
  "orders (snd (Parameter_get_or_create s name)) = orders s"
  "order_items (snd (Parameter_get_or_create s name)) = order_items s"
  "seq_product_info (snd (Parameter_get_or_create s name)) = seq_product_info s"
  "seq_order (snd (Parameter_get_or_create s name)) = seq_order s"
  by (simp_all add: Parameter_get_or_create_def Let_def split: got.splits)

lemma Order_get_or_create_frame [simp]:
  "contacts (snd (Order_get_or_create s user_id state)) = contacts s"
  "sellers (snd (Order_get_or_create s user_id state)) = sellers s"
  "categories (snd (Order_get_or_create s user_id state)) = categories s"
  "category_shops (snd (Order_get_or_create s user_id state)) = category_shops s"
  "products (snd (Order_get_or_create s user_id state)) = products s"
  "product_infos (snd (Order_get_or_create s user_id state)) = product_infos s"
  "parameters (snd (Order_get_or_create s user_id state)) = parameters s"
  "product_parameters (snd (Order_get_or_create s user_id state)) = product_parameters s"
  "order_items (snd (Order_get_or_create s user_id state)) = order_items s"
  "seq_product_info (snd (Order_get_or_create s user_id state)) = seq_product_info s"
  by (simp_all add: Order_get_or_create_def Let_def split: got.splits)

lemma ProductInfo_create_frame [simp]:
  "contacts (snd (ProductInfo_create s name p sid q pr rrc a)) = contacts s"
  "sellers (snd (ProductInfo_create s name p sid q pr rrc a)) = sellers s"
  "categories (snd (ProductInfo_create s name p sid q pr rrc a)) = categories s"
  "category_shops (snd (ProductInfo_create s name p sid q pr rrc a)) = category_shops s"
  "products (snd (ProductInfo_create s name p sid q pr rrc a)) = products s"
  "parameters (snd (ProductInfo_create s name p sid q pr rrc a)) = parameters s"
  "product_parameters (snd (ProductInfo_create s name p sid q pr rrc a)) = product_parameters s"
  "orders (snd (ProductInfo_create s name p sid q pr rrc a)) = orders s"
  "order_items (snd (ProductInfo_create s name p sid q pr rrc a)) = order_items s"
  "seq_order (snd (ProductInfo_create s name p sid q pr rrc a)) = seq_order s"
  by (simp_all add: ProductInfo_create_def Let_def)

lemma ProductParameter_create_frame [simp]:
  "contacts (ProductParameter_create s i p v) = contacts s"
  "sellers (ProductParameter_create s i p v) = sellers s"
  "categories (ProductParameter_create s i p v) = categories s"
  "category_shops (ProductParameter_create s i p v) = category_shops s"
  "products (ProductParameter_create s i p v) = products s"
  "product_infos (ProductParameter_create s i p v) = product_infos s"
  "parameters (ProductParameter_create s i p v) = parameters s"
  "orders (ProductParameter_create s i p v) = orders s"
  "order_items (ProductParameter_create s i p v) = order_items s"
  "seq_product_info (ProductParameter_create s i p v) = seq_product_info s"
  "seq_order (ProductParameter_create s i p v) = seq_order s"
  by (simp_all add: ProductParameter_create_def)

lemma ProductInfo_delete_seller_frame [simp]:
  "contacts (ProductInfo_delete_seller s sid) = contacts s"
  "sellers (ProductInfo_delete_seller s sid) = sellers s"
  "categories (ProductInfo_delete_seller s sid) = categories s"
  "category_shops (ProductInfo_delete_seller s sid) = category_shops s"
  "products (ProductInfo_delete_seller s sid) = products s"
  "parameters (ProductInfo_delete_seller s sid) = parameters s"
  "orders (ProductInfo_delete_seller s sid) = orders s"
  "seq_product_info (ProductInfo_delete_seller s sid) = seq_product_info s"
  "seq_order (ProductInfo_delete_seller s sid) = seq_order s"
  by (simp_all add: ProductInfo_delete_seller_def Let_def)

lemma OrderItem_update_quantity_frame [simp]:
  "contacts (snd (OrderItem_update_quantity s b i q)) = contacts s"
  "sellers (snd (OrderItem_update_quantity s b i q)) = sellers s"
  "categories (snd (OrderItem_update_quantity s b i q)) = categories s"
  "category_shops (snd (OrderItem_update_quantity s b i q)) = category_shops s"
  "products (snd (OrderItem_update_quantity s b i q)) = products s"
  "product_infos (snd (OrderItem_update_quantity s b i q)) = product_infos s"
  "parameters (snd (OrderItem_update_quantity s b i q)) = parameters s"
  "product_parameters (snd (OrderItem_update_quantity s b i q)) = product_parameters s"
  "orders (snd (OrderItem_update_quantity s b i q)) = orders s"
  "seq_product_info (snd (OrderItem_update_quantity s b i q)) = seq_product_info s"
  "seq_order (snd (OrderItem_update_quantity s b i q)) = seq_order s"
  by (simp_all add: OrderItem_update_quantity_def Let_def)

lemma OrderItem_delete_frame [simp]:
  "contacts (snd (OrderItem_delete s b ids)) = contacts s"
  "sellers (snd (OrderItem_delete s b ids)) = sellers s"
  "categories (snd (OrderItem_delete s b ids)) = categories s"
  "category_shops (snd (OrderItem_delete s b ids)) = category_shops s"
  "products (snd (OrderItem_delete s b ids)) = products s"
  "product_infos (snd (OrderItem_delete s b ids)) = product_infos s"
  "parameters (snd (OrderItem_delete s b ids)) = parameters s"
  "product_parameters (snd (OrderItem_delete s b ids)) = product_parameters s"
  "orders (snd (OrderItem_delete s b ids)) = orders s"
  "seq_product_info (snd (OrderItem_delete s b ids)) = seq_product_info s"
  "seq_order (snd (OrderItem_delete s b ids)) = seq_order s"
  by (simp_all add: OrderItem_delete_def Let_def)

lemma OrderItemSerializer_save_frame [simp]:
  "contacts (snd (OrderItemSerializer_save s data)) = contacts s"
  "sellers (snd (OrderItemSerializer_save s data)) = sellers s"
  "categories (snd (OrderItemSerializer_save s data)) = categories s"
  "category_shops (snd (OrderItemSerializer_save s data)) = category_shops s"
  "products (snd (OrderItemSerializer_save s data)) = products s"
  "product_infos (snd (OrderItemSerializer_save s data)) = product_infos s"
  "parameters (snd (OrderItemSerializer_save s data)) = parameters s"
  "product_parameters (snd (OrderItemSerializer_save s data)) = product_parameters s"
  "orders (snd (OrderItemSerializer_save s data)) = orders s"
  "seq_product_info (snd (OrderItemSerializer_save s data)) = seq_product_info s"
  "seq_order (snd (OrderItemSerializer_save s data)) = seq_order s"
  by (simp_all add: OrderItemSerializer_save_def split: json.splits option.splits list.splits)

lemma import_parameters_frame [simp]:
  "contacts (snd (import_parameters s i ps)) = contacts s"
  "sellers (snd (import_parameters s i ps)) = sellers s"
  "categories (snd (import_parameters s i ps)) = categories s"
  "category_shops (snd (import_parameters s i ps)) = category_shops s"
  "products (snd (import_parameters s i ps)) = products s"
  "product_infos (snd (import_parameters s i ps)) = product_infos s"
  "orders (snd (import_parameters s i ps)) = orders s"
  "order_items (snd (import_parameters s i ps)) = order_items s"
  "seq_product_info (snd (import_parameters s i ps)) = seq_product_info s"
  "seq_order (snd (import_parameters s i ps)) = seq_order s"
  by (induction s i ps rule: import_parameters.induct; simp split: prod.splits sum.splits; metis Parameter_get_or_create_frame snd_conv)+

lemma import_item_frame [simp]:
  "contacts (snd (import_item s sid g)) = contacts s"
  "sellers (snd (import_item s sid g)) = sellers s"
  "categories (snd (import_item s sid g)) = categories s"
  "category_shops (snd (import_item s sid g)) = category_shops s"
  "orders (snd (import_item s sid g)) = orders s"
  "order_items (snd (import_item s sid g)) = order_items s"
  "seq_order (snd (import_item s sid g)) = seq_order s"
  by (simp_all add: import_item_def split: prod.splits sum.splits)
    (metis Product_get_or_create_frame ProductInfo_create_frame import_parameters_frame snd_conv)+

lemma import_goods_frame [simp]:
  "contacts (snd (import_goods s sid gs)) = contacts s"
  "sellers (snd (import_goods s sid gs)) = sellers s"
  "categories (snd (import_goods s sid gs)) = categories s"
  "category_shops (snd (import_goods s sid gs)) = category_shops s"
  "orders (snd (import_goods s sid gs)) = orders s"
  "order_items (snd (import_goods s sid gs)) = order_items s"
  "seq_order (snd (import_goods s sid gs)) = seq_order s"
  by (induction s sid gs rule: import_goods.induct; simp split: prod.splits option.splits;
      metis import_item_frame snd_conv)+

section \<open>The category loop ends at its first category\<close>

lemma import_categories_Cons:
  "import_categories s sid (c # cs) =
     (case Category_get_or_create s (ce_id c) (ce_name c) of
        (Inl e, s1) \<Rightarrow> (Some e, s1)
      | (Inr x, s1) \<Rightarrow> (Some AttributeError, s1))"
  by (simp add: Category_manager_def split: prod.splits sum.splits)

lemma Category_get_or_create_errors:
  "fst (Category_get_or_create s c n) = Inl e \<Longrightarrow> e = IntegrityError \<or> e = MultipleObjectsReturned"
  by (auto simp: Category_get_or_create_def Let_def split: got.splits if_splits)

lemma Seller_get_or_create_errors:
  "fst (Seller_get_or_create s n u) = Inl e \<Longrightarrow> e = IntegrityError \<or> e = MultipleObjectsReturned"
  by (auto simp: Seller_get_or_create_def Let_def split: got.splits if_splits)

lemma import_categories_error:
  "fst (import_categories s sid (c # cs))
     \<in> {Some AttributeError, Some IntegrityError, Some MultipleObjectsReturned}"
  using Category_get_or_create_errors [of s "ce_id c" "ce_name c"]
  by (auto simp: import_categories_Cons simp del: import_categories.simps
      split: prod.splits sum.splits)

lemma import_categories_shape:
  "snd (import_categories s sid cs) = s
     \<or> (\<exists>c n. snd (import_categories s sid cs) = snd (Category_get_or_create s c n))"
proof (cases cs)
  case Nil
  then show ?thesis by simp
next
  case (Cons c cs')
  then show ?thesis
    by (simp add: import_categories_Cons del: import_categories.simps
        split: prod.splits sum.splits) (metis snd_conv)
qed

lemma import_categories_frame [simp]:
  "contacts (snd (import_categories s sid cs)) = contacts s"
  "sellers (snd (import_categories s sid cs)) = sellers s"
  "category_shops (snd (import_categories s sid cs)) = category_shops s"
  "products (snd (import_categories s sid cs)) = products s"
  "product_infos (snd (import_categories s sid cs)) = product_infos s"
  "parameters (snd (import_categories s sid cs)) = parameters s"
  "product_parameters (snd (import_categories s sid cs)) = product_parameters s"
  "orders (snd (import_categories s sid cs)) = orders s"
  "order_items (snd (import_categories s sid cs)) = order_items s"
  "seq_product_info (snd (import_categories s sid cs)) = seq_product_info s"
  "seq_order (snd (import_categories s sid cs)) = seq_order s"
  using import_categories_shape [of s sid cs] by auto

section \<open>The paths through the import\<close>

lemma import_catalog_cases:
  obtains
    (seller_fails) e s1 where
      "Seller_get_or_create s (dc_seller d) u = (Inl e, s1)"
      "import_catalog s u d = (Inl e, s1)"
  | (categories_fail) seller s1 e s2 where
      "Seller_get_or_create s (dc_seller d) u = (Inr seller, s1)"
      "import_categories s1 (sl_id seller) (dc_categories d) = (Some e, s2)"
      "import_catalog s u d = (Inl e, s2)"
  | (goods) seller s1 s2 r s3 where
      "Seller_get_or_create s (dc_seller d) u = (Inr seller, s1)"
      "import_categories s1 (sl_id seller) (dc_categories d) = (None, s2)"
      "import_goods (ProductInfo_delete_seller s2 (sl_id seller)) (sl_id seller) (dc_goods d)
         = (r, s3)"
      "import_catalog s u d
         = (case r of Some e \<Rightarrow> Inl e | None \<Rightarrow> Inr (JsonResponse Status_True 200), s3)"
proof -
  obtain r1 s1 where g: "Seller_get_or_create s (dc_seller d) u = (r1, s1)"
    by (cases "Seller_get_or_create s (dc_seller d) u")
  show thesis
  proof (cases r1)
    case (Inl e)
    with g show thesis by (intro seller_fails [of e s1]) (simp_all add: import_catalog_def)
  next
    case (Inr seller)
    obtain r2 s2 where c: "import_categories s1 (sl_id seller) (dc_categories d) = (r2, s2)"
      by (cases "import_categories s1 (sl_id seller) (dc_categories d)")
    show thesis
    proof (cases r2)
      case (Some e)
      with g Inr c show thesis
        by (intro categories_fail [of seller s1 e s2]) (simp_all add: import_catalog_def)
    next
      case None
      obtain r3 s3 where
        l: "import_goods (ProductInfo_delete_seller s2 (sl_id seller)) (sl_id seller) (dc_goods d)
              = (r3, s3)"
        by (cases "import_goods (ProductInfo_delete_seller s2 (sl_id seller)) (sl_id seller)
                     (dc_goods d)")
      with g Inr c None show thesis
        by (intro goods [of seller s1 s2 r3 s3])
          (simp_all add: import_catalog_def split: option.splits)
    qed
  qed
qed

lemma snd_eqD: "f = (a, b) \<Longrightarrow> snd f = b"
  by simp

lemma import_catalog_category_shops:
  "category_shops (snd (import_catalog s u d)) = category_shops s"
proof (cases rule: import_catalog_cases [of s d u])
  case (seller_fails e s1)
  then show ?thesis
    using Seller_get_or_create_frame(3) [of s "dc_seller d" u] by simp
next
  case (categories_fail seller s1 e s2)
  then show ?thesis
    using Seller_get_or_create_frame(3) [of s "dc_seller d" u]
      import_categories_frame(3) [of s1 "sl_id seller" "dc_categories d"] by simp
next
  case (goods seller s1 s2 r s3)
  then show ?thesis
    using Seller_get_or_create_frame(3) [of s "dc_seller d" u]
      import_categories_frame(3) [of s1 "sl_id seller" "dc_categories d"]
      import_goods_frame(4) [of "ProductInfo_delete_seller s2 (sl_id seller)" "sl_id seller"
        "dc_goods d"]
    by simp
qed

lemma import_catalog_with_categories:
  assumes "dc_categories d = c # cs"
  shows "product_infos (snd (import_catalog s u d)) = product_infos s"
    and "product_parameters (snd (import_catalog s u d)) = product_parameters s"
    and "\<exists>e. fst (import_catalog s u d) = Inl e"
proof -
  have "product_infos (snd (import_catalog s u d)) = product_infos s
    \<and> product_parameters (snd (import_catalog s u d)) = product_parameters s
    \<and> (\<exists>e. fst (import_catalog s u d) = Inl e)"
  proof (cases rule: import_catalog_cases [of s d u])
    case (seller_fails e s1)
    then show ?thesis
      using Seller_get_or_create_frame(5,7) [of s "dc_seller d" u] by simp
  next
    case (categories_fail seller s1 e s2)
    then show ?thesis
      using Seller_get_or_create_frame(5,7) [of s "dc_seller d" u]
        import_categories_frame(5,7) [of s1 "sl_id seller" "dc_categories d"] by simp
  next
    case (goods seller s1 s2 r s3)
    then show ?thesis
      using import_categories_error [of s1 "sl_id seller" c cs] assms by simp
  qed
  then show "product_infos (snd (import_catalog s u d)) = product_infos s"
    and "product_parameters (snd (import_catalog s u d)) = product_parameters s"
    and "\<exists>e. fst (import_catalog s u d) = Inl e"
    by simp_all
qed

lemma Order_update_contact_id:
  "Order_update s P [(''contact_id'', c), (''state'', ''new'')] = (Inl FieldDoesNotExist, s)"
  by (simp add: Order_update_def Order_field_def)

lemma Order_get_or_create_no_contact:
  assumes "\<not> list_ex (\<lambda>c. ct_id c = user_id) (contacts s)"
    and "baskets_of s user_id = []"
  shows "Order_get_or_create s user_id ''basket'' = (Inl IntegrityError, s)"
  using assms by (simp add: Order_get_or_create_def get_where_def baskets_of_def)

section \<open>The basket views and the orders table\<close>

lemma Order_get_or_create_cases:
  obtains
    (found) b where
      "Order_get_or_create s u st = (Inr b, s)"
      "b \<in> set (orders s)" "od_user b = u" "od_state b = st"
  | (failed) e where
      "Order_get_or_create s u st = (Inl e, s)"
  | (created)
      "filter (\<lambda>x. od_user x = u \<and> od_state x = st) (orders s) = []"
      "Order_get_or_create s u st =
         (Inr \<lparr>od_id = seq_order s, od_user = u, od_dt = clock s, od_state = st\<rparr>,
          s\<lparr>orders := orders s @ [\<lparr>od_id = seq_order s, od_user = u, od_dt = clock s,
                                    od_state = st\<rparr>],
            seq_order := Suc (seq_order s)\<rparr>)"
proof (cases "filter (\<lambda>x. od_user x = u \<and> od_state x = st) (orders s)")
  case Nil
  then show thesis
    using failed created
    by (cases "list_ex (\<lambda>c. ct_id c = u) (contacts s)")
      (simp_all add: Order_get_or_create_def get_where_def Let_def)
next
  case (Cons b bs)
  then have "b \<in> set (filter (\<lambda>x. od_user x = u \<and> od_state x = st) (orders s))"
    by simp
  then have "b \<in> set (orders s)" "od_user b = u" "od_state b = st"
    by simp_all
  with Cons show thesis
    using found [of b] failed
    by (cases bs) (simp_all add: Order_get_or_create_def get_where_def)
qed

lemma post_order_item_frame [simp]:
  "orders (snd (post_order_item s b n x)) = orders s"
  "seq_order (snd (post_order_item s b n x)) = seq_order s"
proof -
  have "orders (snd (post_order_item s b n x)) = orders s
        \<and> seq_order (snd (post_order_item s b n x)) = seq_order s"
  proof (cases x)
    case (JObj kvs)
    define data where "data = JObj (dict_update kvs ''order'' (JInt (int (od_id b))))"
    obtain r s1 where sv: "OrderItemSerializer_save s data = (r, s1)"
      by (cases "OrderItemSerializer_save s data")
    have fr: "orders s1 = orders s" "seq_order s1 = seq_order s"
      using OrderItemSerializer_save_frame(9,11) [of s data] sv by simp_all
    show ?thesis
    proof (cases "OrderItemSerializer_is_valid s data")
      case True
      show ?thesis
      proof (cases r)
        case None
        with JObj True sv fr show ?thesis
          by (simp add: post_order_item_def data_def [symmetric])
      next
        case (Some e)
        with JObj True sv fr show ?thesis
          by (cases e) (simp_all add: post_order_item_def data_def [symmetric])
      qed
    next
      case False
      with JObj show ?thesis
        by (simp add: post_order_item_def data_def [symmetric])
    qed
  qed (simp_all add: post_order_item_def)
  then show "orders (snd (post_order_item s b n x)) = orders s"
    and "seq_order (snd (post_order_item s b n x)) = seq_order s"
    by simp_all
qed

lemma post_loop_frame [simp]:
  "orders (snd (post_loop s b n xs)) = orders s"
  "seq_order (snd (post_loop s b n xs)) = seq_order s"
  by (cases xs; simp)+

lemma put_loop_frame [simp]:
  "orders (snd (put_loop s b n xs)) = orders s"
  "seq_order (snd (put_loop s b n xs)) = seq_order s"
  by (induction s b n xs rule: put_loop.induct;
      simp split: json.splits option.splits prod.splits sum.splits;
      metis OrderItem_update_quantity_frame snd_conv)+

text \<open>Every basket view leaves the orders as its get-or-create left them.\<close>

lemma BasketView_post_orders:
  "orders (snd (BasketView_post s user items)) = orders s
   \<or> (\<exists>u. user = Some u
        \<and> orders (snd (BasketView_post s user items))
            = orders (snd (Order_get_or_create s (us_id u) ''basket'')))"
  by (auto simp: BasketView_post_def split: option.splits items_arg.splits prod.splits sum.splits)

lemma BasketView_put_orders:
  "orders (snd (BasketView_put s user items)) = orders s
   \<or> (\<exists>u. user = Some u
        \<and> orders (snd (BasketView_put s user items))
            = orders (snd (Order_get_or_create s (us_id u) ''basket'')))"
  by (auto simp: BasketView_put_def split: option.splits items_arg.splits prod.splits sum.splits)

lemma BasketView_delete_orders:
  "orders (snd (BasketView_delete s user items)) = orders s
   \<or> (\<exists>u. user = Some u
        \<and> orders (snd (BasketView_delete s user items))
            = orders (snd (Order_get_or_create s (us_id u) ''basket'')))"
  by (auto simp: BasketView_delete_def Let_def split: option.splits prod.splits sum.splits)
    (metis OrderItem_delete_frame(9) snd_conv)+

lemma basket_singleton_cong:
  "orders s' = orders s \<Longrightarrow> basket_singleton s' = basket_singleton s"
  by (simp add: basket_singleton_def)

lemma basket_singleton_get_or_create:
  assumes "basket_singleton s"
  shows "basket_singleton (snd (Order_get_or_create s u ''basket''))"
proof (cases rule: Order_get_or_create_cases [of s u "''basket''"])
  case (found b)
  with assms show ?thesis by simp
next
  case (failed e)
  with assms show ?thesis by simp
next
  case created
  from created(1) have "u \<notin> od_user ` set (filter (\<lambda>x. od_state x = ''basket'') (orders s))"
    by (auto simp: filter_empty_conv)
  with assms created(2) show ?thesis
    by (simp add: basket_singleton_def)
qed

lemma basket_singleton_view:
  assumes "basket_singleton s"
    and "orders s' = orders s
         \<or> (\<exists>u::User. user = Some u
              \<and> orders s' = orders (snd (Order_get_or_create s (us_id u) ''basket'')))"
  shows "basket_singleton s'"
  using assms(2)
proof (elim disjE exE conjE)
  assume "orders s' = orders s"
  then have "basket_singleton s' = basket_singleton s"
    by (rule basket_singleton_cong)
  with assms(1) show ?thesis by (simp only:)
next
  fix u :: User
  assume "orders s' = orders (snd (Order_get_or_create s (us_id u) ''basket''))"
  then have "basket_singleton s' = basket_singleton (snd (Order_get_or_create s (us_id u) ''basket''))"
    by (rule basket_singleton_cong)
  with basket_singleton_get_or_create [OF assms(1), of "us_id u"] show ?thesis
    by (simp only:)
qed

lemma basket_singleton_step:
  assumes "basket_singleton s"
  shows "basket_singleton (basket_step s call)"
proof (cases call)
  case (Add_call user items)
  then show ?thesis
    using basket_singleton_view [OF assms BasketView_post_orders [of s user items]] by simp
next
  case (Update_call user items)
  then show ?thesis
    using basket_singleton_view [OF assms BasketView_put_orders [of s user items]] by simp
next
  case (Delete_call user items)
  then show ?thesis
    using basket_singleton_view [OF assms BasketView_delete_orders [of s user items]] by simp
qed

lemma basket_singleton_run:
  "basket_singleton s \<Longrightarrow> basket_singleton (basket_run s calls)"
  unfolding basket_run_def
  by (induction calls arbitrary: s) (simp_all add: basket_singleton_step)

lemma distinct_map_filter_le_1:
  "distinct (map f xs) \<Longrightarrow> length (filter (\<lambda>x. f x = k) xs) \<le> Suc 0"
  by (induction xs) (auto simp: filter_empty_conv image_iff)

lemma basket_singleton_baskets_of:
  assumes "basket_singleton s"
  shows "length (baskets_of s user_id) \<le> 1"
proof -
  have "length (filter (\<lambda>x. od_user x = user_id)
                  (filter (\<lambda>x. od_state x = ''basket'') (orders s))) \<le> Suc 0"
    using assms by (intro distinct_map_filter_le_1) (simp add: basket_singleton_def)
  then show ?thesis
    by (simp add: baskets_of_def conj_commute)
qed

section \<open>The basket delete call\<close>

lemma BasketView_delete_Cons:
  "BasketView_delete s (Some u) (Some (c # cs)) =
     (case Order_get_or_create s (us_id u) ''basket'' of
        (Inl e, s1) \<Rightarrow> (Inl e, s1)
      | (Inr basket, s1) \<Rightarrow>
          if digit_entries (c # cs) \<noteq> [] then
            if list_all isdecimal (digit_entries (c # cs)) then
              (Inr (JsonResponse
                      (Deleted_objects
                         (fst (OrderItem_delete s1 (od_id basket)
                                 (map int_of_digits (digit_entries (c # cs)))))) 200),
               snd (OrderItem_delete s1 (od_id basket)
                      (map int_of_digits (digit_entries (c # cs)))))
            else (Inl ValueError, s1)
          else (Inr (JsonResponse (Errors ''Necessary arguments are not specified'') 200), s1))"
  by (simp add: BasketView_delete_def digit_entries_def Let_def
      split: prod.splits sum.splits)

lemma BasketView_delete_digit_entries:
  assumes "str \<noteq> []" "str' \<noteq> []" "digit_entries str' = digit_entries str"
  shows "BasketView_delete s (Some u) (Some str') = BasketView_delete s (Some u) (Some str)"
proof -
  obtain c cs where a: "str = c # cs" using assms(1) by (cases str) auto
  obtain c' cs' where b: "str' = c' # cs'" using assms(2) by (cases str') auto
  show ?thesis
    unfolding a b BasketView_delete_Cons assms(3) [unfolded a b] by (rule refl)
qed

lemma isdecimal_isdigit: "isdecimal str \<Longrightarrow> isdigit str"
  unfolding isdecimal_def isdigit_def list_all_iff by blast

lemma numeric_ids_decimal:
  assumes "list_all isdecimal (digit_entries str)"
  shows "map int_of_digits (digit_entries str) = numeric_ids str"
proof -
  have "filter isdigit xs = filter isdecimal xs" if "list_all isdecimal (filter isdigit xs)"
    for xs :: "string list"
    using that by (induction xs) (auto simp: isdecimal_isdigit)
  with assms show ?thesis
    by (simp add: digit_entries_def numeric_ids_def)
qed

lemma orders_wf_get_or_create:
  assumes "orders_wf s"
  shows "orders_wf (snd (Order_get_or_create s u st))"
proof (cases rule: Order_get_or_create_cases [of s u st])
  case (found b)
  with assms show ?thesis by simp
next
  case (failed e)
  with assms show ?thesis by simp
next
  case created
  with assms show ?thesis
    by (auto simp: orders_wf_def list_all_iff less_Suc_eq)
qed

lemma orders_get_or_create_mono:
  "set (orders s) \<subseteq> set (orders (snd (Order_get_or_create s u st)))"
  by (cases rule: Order_get_or_create_cases [of s u st]) auto

lemma OrderItem_delete_items:
  "order_items (snd (OrderItem_delete s b ids))
     = filter (\<lambda>x. \<not> (oi_order x = b \<and> oi_id x \<in> set ids)) (order_items s)"
  by (simp add: OrderItem_delete_def Let_def)

text \<open>What a delete call does to the order items, by the outcome of its get-or-create.\<close>

lemma BasketView_delete_items:
  obtains
    (unchanged)
      "order_items (snd (BasketView_delete s (Some u) (Some str))) = order_items s"
  | (deleted) b where
      "b \<in> set (orders (snd (BasketView_delete s (Some u) (Some str))))"
      "od_user b = us_id u" "od_state b = ''basket''"
      "orders (snd (BasketView_delete s (Some u) (Some str)))
         = orders (snd (Order_get_or_create s (us_id u) ''basket''))"
      "order_items (snd (BasketView_delete s (Some u) (Some str)))
         = filter (\<lambda>x. \<not> (oi_order x = od_id b \<and> oi_id x \<in> set (numeric_ids str)))
             (order_items s)"
proof (cases str)
  case Nil
  then show thesis using unchanged by (simp add: BasketView_delete_def)
next
  case (Cons c cs)
  obtain r s1 where g: "Order_get_or_create s (us_id u) ''basket'' = (r, s1)"
    by (cases "Order_get_or_create s (us_id u) ''basket''")
  have s1: "order_items s1 = order_items s"
    using Order_get_or_create_frame(9) [of s "us_id u" "''basket''"] g by simp
  show thesis
  proof (cases "digit_entries str \<noteq> [] \<and> list_all isdecimal (digit_entries str)")
    case False
    have "order_items (snd (BasketView_delete s (Some u) (Some str))) = order_items s"
    proof (cases r)
      case (Inl e)
      with g s1 Cons show ?thesis by (simp add: BasketView_delete_Cons)
    next
      case (Inr b)
      with g s1 Cons False show ?thesis
        by (cases "digit_entries str = []") (simp_all add: BasketView_delete_Cons)
    qed
    then show thesis by (rule unchanged)
  next
    case True
    then have ids: "map int_of_digits (digit_entries str) = numeric_ids str"
      by (simp add: numeric_ids_decimal)
    show thesis
    proof (cases rule: Order_get_or_create_cases [of s "us_id u" "''basket''"])
      case (found b)
      with True Cons ids show thesis
        using deleted [of b] by (simp add: BasketView_delete_Cons OrderItem_delete_items)
    next
      case (failed e)
      with Cons show thesis using unchanged by (simp add: BasketView_delete_Cons)
    next
      case created
      with True Cons ids show thesis
        using deleted [of "\<lparr>od_id = seq_order s, od_user = us_id u, od_dt = clock s,
                             od_state = ''basket''\<rparr>"]
        by (simp add: BasketView_delete_Cons OrderItem_delete_items)
    qed
  qed
qed

lemma distinct_id_eq:
  assumes "distinct (map od_id xs)" "a \<in> set xs" "b \<in> set xs" "od_id a = od_id b"
  shows "a = b"
  using assms by (meson distinct_map inj_on_def)

lemma basket_created_with_contact:
  assumes "list_ex (\<lambda>c. ct_id c = us_id u) (contacts s)"
    and "baskets_of s (us_id u) = []"
  shows "orders (snd (BasketView_delete s (Some u) (Some (c # cs))))
           = orders s @ [\<lparr>od_id = seq_order s, od_user = us_id u, od_dt = clock s,
                           od_state = ''basket''\<rparr>]
    \<and> orders (snd (BasketView_put s (Some u) (Parsed j)))
           = orders s @ [\<lparr>od_id = seq_order s, od_user = us_id u, od_dt = clock s,
                           od_state = ''basket''\<rparr>]
    \<and> order_items (snd (BasketView_put s (Some u) (Parsed (JList [])))) = order_items s"
proof -
  have g: "Order_get_or_create s (us_id u) ''basket''
         = (Inr \<lparr>od_id = seq_order s, od_user = us_id u, od_dt = clock s, od_state = ''basket''\<rparr>,
            s\<lparr>orders := orders s @ [\<lparr>od_id = seq_order s, od_user = us_id u, od_dt = clock s,
                                      od_state = ''basket''\<rparr>],
              seq_order := Suc (seq_order s)\<rparr>)"
    using assms by (simp add: Order_get_or_create_def get_where_def baskets_of_def Let_def)
  show ?thesis
    using g by (simp add: BasketView_delete_Cons BasketView_put_def py_iter_def
        split: json.splits sum.splits)
qed

section \<open>Importing the same document twice\<close>

lemma kept_by_refl: "kept_by key xs xs"
  by (simp add: kept_by_def)

lemma kept_by_trans: "kept_by key xs ys \<Longrightarrow> kept_by key ys zs \<Longrightarrow> kept_by key xs zs"
  by (simp add: kept_by_def)

lemma kept_by_append:
  "filter (\<lambda>x. key x = key y) xs = [] \<Longrightarrow> kept_by key xs (xs @ [y])"
  by (auto simp: kept_by_def)

lemma kept_byD:
  "kept_by key xs ys \<Longrightarrow> filter (\<lambda>x. key x = k) xs = z # zs
     \<Longrightarrow> filter (\<lambda>x. key x = k) ys = z # zs"
  by (simp add: kept_by_def)

text \<open>The outcomes of the two get-or-creates of the goods loop.\<close>

lemma Product_get_or_create_Inr:
  assumes "Product_get_or_create t n c = (Inr p, ta)"
  shows "filter (\<lambda>x. (pr_name x, pr_category x) = (n, c)) (products ta) = [p]"
    and "kept_by (\<lambda>x. (pr_name x, pr_category x)) (products t) (products ta)"
proof -
  have "filter (\<lambda>x. (pr_name x, pr_category x) = (n, c)) (products ta) = [p]
        \<and> kept_by (\<lambda>x. (pr_name x, pr_category x)) (products t) (products ta)"
  proof (cases "filter (\<lambda>x. pr_name x = n \<and> pr_category x = c) (products t)")
    case Nil
    with assms show ?thesis
      by (auto simp: Product_get_or_create_def get_where_def Let_def kept_by_append
          split: if_splits)
  next
    case (Cons x xs)
    with assms show ?thesis
      by (cases xs) (auto simp: Product_get_or_create_def get_where_def kept_by_refl)
  qed
  then show "filter (\<lambda>x. (pr_name x, pr_category x) = (n, c)) (products ta) = [p]"
    and "kept_by (\<lambda>x. (pr_name x, pr_category x)) (products t) (products ta)"
    by simp_all
qed

lemma Product_get_or_create_Inl:
  assumes "Product_get_or_create t n c = (Inl e, ta)"
  shows "ta = t"
    and "(\<exists>x y zs. filter (\<lambda>x. (pr_name x, pr_category x) = (n, c)) (products t) = x # y # zs)
         \<or> (filter (\<lambda>x. (pr_name x, pr_category x) = (n, c)) (products t) = []
             \<and> \<not> list_ex (\<lambda>x. cg_id x = c) (categories t))"
proof -
  have "ta = t
    \<and> ((\<exists>x y zs. filter (\<lambda>x. (pr_name x, pr_category x) = (n, c)) (products t) = x # y # zs)
         \<or> (filter (\<lambda>x. (pr_name x, pr_category x) = (n, c)) (products t) = []
             \<and> \<not> list_ex (\<lambda>x. cg_id x = c) (categories t)))"
  proof (cases "filter (\<lambda>x. pr_name x = n \<and> pr_category x = c) (products t)")
    case Nil
    with assms show ?thesis
      by (auto simp: Product_get_or_create_def get_where_def Let_def split: if_splits)
  next
    case (Cons x xs)
    with assms show ?thesis
      by (cases xs) (auto simp: Product_get_or_create_def get_where_def)
  qed
  then show "ta = t"
    and "(\<exists>x y zs. filter (\<lambda>x. (pr_name x, pr_category x) = (n, c)) (products t) = x # y # zs)
         \<or> (filter (\<lambda>x. (pr_name x, pr_category x) = (n, c)) (products t) = []
             \<and> \<not> list_ex (\<lambda>x. cg_id x = c) (categories t))"
    by simp_all
qed

text \<open>A get-or-create is decided by the rows under its key and, for a product, by the categories.\<close>

lemma Product_get_or_create_same:
  assumes "filter (\<lambda>x. (pr_name x, pr_category x) = (n, c)) (products t2)
             = filter (\<lambda>x. (pr_name x, pr_category x) = (n, c)) (products t1)"
    and "filter (\<lambda>x. (pr_name x, pr_category x) = (n, c)) (products t1) \<noteq> []
         \<or> \<not> list_ex (\<lambda>x. cg_id x = c) (categories t1)"
    and "categories t2 = categories t1"
  shows "fst (Product_get_or_create t2 n c) = fst (Product_get_or_create t1 n c)"
    and "snd (Product_get_or_create t2 n c) = t2"
    and "snd (Product_get_or_create t1 n c) = t1"
proof -
  have "fst (Product_get_or_create t2 n c) = fst (Product_get_or_create t1 n c)
    \<and> snd (Product_get_or_create t2 n c) = t2 \<and> snd (Product_get_or_create t1 n c) = t1"
  proof (cases "filter (\<lambda>x. pr_name x = n \<and> pr_category x = c) (products t1)")
    case Nil
    with assms show ?thesis
      by (simp add: Product_get_or_create_def get_where_def)
  next
    case (Cons x xs)
    with assms show ?thesis
      by (cases xs) (simp_all add: Product_get_or_create_def get_where_def)
  qed
  then show "fst (Product_get_or_create t2 n c) = fst (Product_get_or_create t1 n c)"
    and "snd (Product_get_or_create t2 n c) = t2"
    and "snd (Product_get_or_create t1 n c) = t1"
    by simp_all
qed

lemma Product_get_or_create_found:
  assumes "filter (\<lambda>x. (pr_name x, pr_category x) = (n, c)) (products t) = [p]"
  shows "Product_get_or_create t n c = (Inr p, t)"
  using assms by (simp add: Product_get_or_create_def get_where_def)

lemma Parameter_get_or_create_Inr:
  assumes "Parameter_get_or_create t k = (Inr q, ta)"
  shows "filter (\<lambda>x. pm_name x = k) (parameters ta) = [q]"
    and "kept_by pm_name (parameters t) (parameters ta)"
proof -
  have "filter (\<lambda>x. pm_name x = k) (parameters ta) = [q]
        \<and> kept_by pm_name (parameters t) (parameters ta)"
  proof (cases "filter (\<lambda>x. pm_name x = k) (parameters t)")
    case Nil
    with assms show ?thesis
      by (auto simp: Parameter_get_or_create_def get_where_def Let_def kept_by_append)
  next
    case (Cons x xs)
    with assms show ?thesis
      by (cases xs) (auto simp: Parameter_get_or_create_def get_where_def kept_by_refl)
  qed
  then show "filter (\<lambda>x. pm_name x = k) (parameters ta) = [q]"
    and "kept_by pm_name (parameters t) (parameters ta)"
    by simp_all
qed

lemma Parameter_get_or_create_Inl:
  assumes "Parameter_get_or_create t k = (Inl e, ta)"
  shows "ta = t"
    and "\<exists>x y zs. filter (\<lambda>x. pm_name x = k) (parameters t) = x # y # zs"
proof -
  have "ta = t \<and> (\<exists>x y zs. filter (\<lambda>x. pm_name x = k) (parameters t) = x # y # zs)"
  proof (cases "filter (\<lambda>x. pm_name x = k) (parameters t)")
    case Nil
    with assms show ?thesis
      by (auto simp: Parameter_get_or_create_def get_where_def Let_def)
  next
    case (Cons x xs)
    with assms show ?thesis
      by (cases xs) (auto simp: Parameter_get_or_create_def get_where_def)
  qed
  then show "ta = t"
    and "\<exists>x y zs. filter (\<lambda>x. pm_name x = k) (parameters t) = x # y # zs"
    by simp_all
qed

lemma Parameter_get_or_create_same:
  assumes "filter (\<lambda>x. pm_name x = k) (parameters t2) = filter (\<lambda>x. pm_name x = k) (parameters t1)"
    and "filter (\<lambda>x. pm_name x = k) (parameters t1) \<noteq> []"
  shows "fst (Parameter_get_or_create t2 k) = fst (Parameter_get_or_create t1 k)"
    and "snd (Parameter_get_or_create t2 k) = t2"
    and "snd (Parameter_get_or_create t1 k) = t1"
proof -
  have "fst (Parameter_get_or_create t2 k) = fst (Parameter_get_or_create t1 k)
    \<and> snd (Parameter_get_or_create t2 k) = t2 \<and> snd (Parameter_get_or_create t1 k) = t1"
  proof (cases "filter (\<lambda>x. pm_name x = k) (parameters t1)")
    case Nil
    with assms show ?thesis by simp
  next
    case (Cons x xs)
    with assms show ?thesis
      by (cases xs) (simp_all add: Parameter_get_or_create_def get_where_def)
  qed
  then show "fst (Parameter_get_or_create t2 k) = fst (Parameter_get_or_create t1 k)"
    and "snd (Parameter_get_or_create t2 k) = t2"
    and "snd (Parameter_get_or_create t1 k) = t1"
    by simp_all
qed

text \<open>The loops keep the rows under the keys that are taken.\<close>

lemma import_parameters_kept:
  "kept_by pm_name (parameters t) (parameters (snd (import_parameters t n ps)))"
proof (induction ps arbitrary: t)
  case Nil
  show ?case by (simp add: kept_by_refl)
next
  case (Cons kv ps)
  obtain k v where kv: "kv = (k, v)" by (cases kv)
  obtain r ta where g: "Parameter_get_or_create t k = (r, ta)"
    by (cases "Parameter_get_or_create t k")
  show ?case
  proof (cases r)
    case (Inl e)
    with g kv Parameter_get_or_create_Inl(1) [of t k e ta] show ?thesis
      by (simp add: kept_by_refl)
  next
    case (Inr q)
    have "kept_by pm_name (parameters t) (parameters ta)"
      using Parameter_get_or_create_Inr(2) g Inr by blast
    moreover have "kept_by pm_name (parameters ta)
        (parameters (snd (import_parameters (ProductParameter_create ta n (pm_id q) v) n ps)))"
      using Cons.IH [of "ProductParameter_create ta n (pm_id q) v"] by simp
    ultimately show ?thesis
      using g kv Inr by (simp add: kept_by_trans)
  qed
qed

lemma import_item_unfold:
  "import_item t sid g =
     (case Product_get_or_create t (gd_name g) (gd_category g) of
        (Inl e, ta) \<Rightarrow> (Some e, ta)
      | (Inr p, ta) \<Rightarrow>
          import_parameters
            (snd (ProductInfo_create ta (gd_model g) (pr_id p) sid (gd_quantity g) (gd_price g)
                    (gd_price_rrc g) (gd_id g)))
            (seq_product_info ta) (gd_parameters g))"
  by (simp add: import_item_def ProductInfo_create_def Let_def split: prod.splits sum.splits)

lemma import_item_kept:
  "kept_by pm_name (parameters t) (parameters (snd (import_item t sid g)))"
  "kept_by (\<lambda>x. (pr_name x, pr_category x)) (products t) (products (snd (import_item t sid g)))"
proof -
  obtain r ta where g: "Product_get_or_create t (gd_name g) (gd_category g) = (r, ta)"
    by (cases "Product_get_or_create t (gd_name g) (gd_category g)")
  have pa: "parameters ta = parameters t"
    using Product_get_or_create_frame(6) [of t "gd_name g" "gd_category g"] g by simp
  show "kept_by pm_name (parameters t) (parameters (snd (import_item t sid g)))"
  proof (cases r)
    case (Inl e)
    with g pa show ?thesis by (simp add: import_item_unfold kept_by_refl)
  next
    case (Inr p)
    with g pa show ?thesis
      using import_parameters_kept
        [of "snd (ProductInfo_create ta (gd_model g) (pr_id p) sid (gd_quantity g) (gd_price g)
                    (gd_price_rrc g) (gd_id g))" "seq_product_info ta" "gd_parameters g"]
      by (simp add: import_item_unfold)
  qed
  show "kept_by (\<lambda>x. (pr_name x, pr_category x)) (products t)
          (products (snd (import_item t sid g)))"
  proof (cases r)
    case (Inl e)
    with g Product_get_or_create_Inl(1) [of t "gd_name g" "gd_category g" e ta] show ?thesis
      by (simp add: import_item_unfold kept_by_refl)
  next
    case (Inr p)
    with g Product_get_or_create_Inr(2) [of t "gd_name g" "gd_category g" p ta] show ?thesis
      by (simp add: import_item_unfold)
  qed
qed

lemma import_goods_kept:
  "kept_by pm_name (parameters t) (parameters (snd (import_goods t sid gs)))"
  "kept_by (\<lambda>x. (pr_name x, pr_category x)) (products t) (products (snd (import_goods t sid gs)))"
proof -
  have "kept_by pm_name (parameters t) (parameters (snd (import_goods t sid gs)))
      \<and> kept_by (\<lambda>x. (pr_name x, pr_category x)) (products t)
          (products (snd (import_goods t sid gs)))"
  proof (induction gs arbitrary: t)
    case Nil
    show ?case by (simp add: kept_by_refl)
  next
    case (Cons g gs)
    obtain r E where i: "import_item t sid g = (r, E)"
      by (cases "import_item t sid g")
    have k: "kept_by pm_name (parameters t) (parameters E)"
      "kept_by (\<lambda>x. (pr_name x, pr_category x)) (products t) (products E)"
      using import_item_kept [of t sid g] i by simp_all
    show ?case
    proof (cases r)
      case None
      with i k Cons.IH [of E] show ?thesis
        by (auto intro: kept_by_trans)
    next
      case (Some e)
      with i k show ?thesis by simp
    qed
  qed
  then show "kept_by pm_name (parameters t) (parameters (snd (import_goods t sid gs)))"
    and "kept_by (\<lambda>x. (pr_name x, pr_category x)) (products t)
          (products (snd (import_goods t sid gs)))"
    by simp_all
qed

lemma Parameter_get_or_create_found:
  assumes "filter (\<lambda>x. pm_name x = k) (parameters t) = [q]"
  shows "Parameter_get_or_create t k = (Inr q, t)"
  using assms by (simp add: Parameter_get_or_create_def get_where_def)

text \<open>The catalog tables stay well-formed.\<close>

lemma catalog_wf_Product_get_or_create [simp]:
  "catalog_wf (snd (Product_get_or_create t n c)) = catalog_wf t"
  by (simp add: catalog_wf_def)

lemma catalog_wf_Parameter_get_or_create [simp]:
  "catalog_wf (snd (Parameter_get_or_create t k)) = catalog_wf t"
  by (simp add: catalog_wf_def)

lemma ProductInfo_create_infos:
  "product_infos (snd (ProductInfo_create t nm p sid q pr rrc a))
     = product_infos t @
         [\<lparr>pi_id = seq_product_info t, pi_name = nm, pi_product = p, pi_seller = sid,
           pi_quantity = q, pi_price = pr, pi_price_rrc = rrc, pi_article = a\<rparr>]"
  "seq_product_info (snd (ProductInfo_create t nm p sid q pr rrc a)) = Suc (seq_product_info t)"
  by (simp_all add: ProductInfo_create_def Let_def)

lemma catalog_wf_ProductInfo_create:
  assumes "catalog_wf t"
  shows "catalog_wf (snd (ProductInfo_create t nm p sid q pr rrc a))"
  using assms
  by (auto simp: catalog_wf_def ProductInfo_create_infos list_all_iff less_Suc_eq)

lemma catalog_wf_ProductParameter_create:
  assumes "catalog_wf t" "n < seq_product_info t"
  shows "catalog_wf (ProductParameter_create t n q v)"
  using assms by (simp add: catalog_wf_def ProductParameter_create_def)

lemma catalog_wf_import_parameters:
  assumes "catalog_wf t" "n < seq_product_info t"
  shows "catalog_wf (snd (import_parameters t n ps))"
  using assms
proof (induction ps arbitrary: t)
  case Nil
  then show ?case by simp
next
  case (Cons kv ps)
  obtain k v where kv: "kv = (k, v)" by (cases kv)
  obtain r ta where g: "Parameter_get_or_create t k = (r, ta)"
    by (cases "Parameter_get_or_create t k")
  have ta: "catalog_wf ta" "seq_product_info ta = seq_product_info t"
    using catalog_wf_Parameter_get_or_create [of t k]
      Parameter_get_or_create_frame(10) [of t k] g Cons.prems by simp_all
  show ?case
  proof (cases r)
    case (Inl e)
    with g kv ta show ?thesis by simp
  next
    case (Inr q)
    have "catalog_wf (ProductParameter_create ta n (pm_id q) v)"
      using ta Cons.prems(2) by (simp add: catalog_wf_ProductParameter_create)
    moreover have "n < seq_product_info (ProductParameter_create ta n (pm_id q) v)"
      using ta Cons.prems(2) by simp
    ultimately show ?thesis
      using Cons.IH [of "ProductParameter_create ta n (pm_id q) v"] g kv Inr by simp
  qed
qed

lemma catalog_wf_import_item:
  assumes "catalog_wf t"
  shows "catalog_wf (snd (import_item t sid g))"
proof -
  obtain r ta where g: "Product_get_or_create t (gd_name g) (gd_category g) = (r, ta)"
    by (cases "Product_get_or_create t (gd_name g) (gd_category g)")
  have ta: "catalog_wf ta"
    using catalog_wf_Product_get_or_create [of t "gd_name g" "gd_category g"] g assms by simp
  show ?thesis
  proof (cases r)
    case (Inl e)
    with g ta show ?thesis by (simp add: import_item_unfold)
  next
    case (Inr p)
    with g show ?thesis
      by (simp add: import_item_unfold catalog_wf_import_parameters
          catalog_wf_ProductInfo_create [OF ta] ProductInfo_create_infos)
  qed
qed

lemma catalog_wf_import_goods:
  assumes "catalog_wf t"
  shows "catalog_wf (snd (import_goods t sid gs))"
  using assms
proof (induction gs arbitrary: t)
  case Nil
  then show ?case by simp
next
  case (Cons g gs)
  obtain r E where i: "import_item t sid g = (r, E)"
    by (cases "import_item t sid g")
  have "catalog_wf E"
    using catalog_wf_import_item [OF Cons.prems, of sid g] i by simp
  with i Cons.IH [of E] show ?case
    by (cases r) simp_all
qed

lemma catalog_wf_delete:
  assumes "catalog_wf t"
  shows "catalog_wf (ProductInfo_delete_seller t sid)"
  using assms
  by (auto simp: catalog_wf_def ProductInfo_delete_seller_def Let_def list_all_iff
      distinct_map_filter)

text \<open>The parameters attached to a product info.\<close>

lemma attached_Product_get_or_create [simp]:
  "attached (snd (Product_get_or_create t n c)) i = attached t i"
  by (simp add: attached_def)

lemma attached_Parameter_get_or_create [simp]:
  "attached (snd (Parameter_get_or_create t k)) i = attached t i"
  by (simp add: attached_def)

lemma attached_ProductInfo_create [simp]:
  "attached (snd (ProductInfo_create t nm p sid q pr rrc a)) i = attached t i"
  by (simp add: attached_def)

lemma attached_ProductParameter_create:
  "attached (ProductParameter_create t n q v) i
     = attached t i @ (if i = n then [(q, v)] else [])"
  by (simp add: attached_def ProductParameter_create_def)

lemma attached_import_parameters:
  assumes "i \<noteq> n"
  shows "attached (snd (import_parameters t n ps)) i = attached t i"
proof (induction ps arbitrary: t)
  case Nil
  show ?case by simp
next
  case (Cons kv ps)
  obtain k v where kv: "kv = (k, v)" by (cases kv)
  obtain r ta where g: "Parameter_get_or_create t k = (r, ta)"
    by (cases "Parameter_get_or_create t k")
  have ta: "attached ta i = attached t i"
    using attached_Parameter_get_or_create [of t k i] g by simp
  show ?case
  proof (cases r)
    case (Inl e)
    with g kv ta show ?thesis by simp
  next
    case (Inr q)
    with g kv ta assms Cons.IH [of "ProductParameter_create ta n (pm_id q) v"] show ?thesis
      by (simp add: attached_ProductParameter_create)
  qed
qed

lemma attached_fresh:
  assumes "catalog_wf t" "seq_product_info t \<le> i"
  shows "attached t i = []"
  using assms by (auto simp: attached_def catalog_wf_def list_all_iff filter_empty_conv)

text \<open>The catalog of a seller through one round of the goods loop.\<close>

lemma import_item_stops:
  assumes "Product_get_or_create t (gd_name g) (gd_category g) = (Inl e, ta)"
  shows "import_item t sid g = (Some e, t)"
  using assms Product_get_or_create_Inl(1) [OF assms] by (simp add: import_item_unfold)

lemma seller_catalog_import_item:
  assumes wf: "catalog_wf t"
    and g: "Product_get_or_create t (gd_name g) (gd_category g) = (Inr p, ta)"
  shows "seller_catalog (snd (import_item t sid g)) sid
           = seller_catalog t sid @
               [(pr_id p, gd_model g, gd_quantity g, gd_price g, gd_price_rrc g, gd_id g,
                 attached (snd (import_item t sid g)) (seq_product_info t))]"
    and "seller_id \<noteq> sid
           \<Longrightarrow> seller_catalog (snd (import_item t sid g)) seller_id = seller_catalog t seller_id"
proof -
  let ?n = "seq_product_info t"
  let ?tb = "snd (ProductInfo_create ta (gd_model g) (pr_id p) sid (gd_quantity g) (gd_price g)
                    (gd_price_rrc g) (gd_id g))"
  let ?E = "snd (import_item t sid g)"
  have ta: "seq_product_info ta = ?n" "product_infos ta = product_infos t"
    using Product_get_or_create_frame(5,10) [of t "gd_name g" "gd_category g"] g by simp_all
  have E: "?E = snd (import_parameters ?tb ?n (gd_parameters g))"
    using g ta by (simp add: import_item_unfold)
  have infos: "product_infos ?E = product_infos t @
         [\<lparr>pi_id = ?n, pi_name = gd_model g, pi_product = pr_id p, pi_seller = sid,
           pi_quantity = gd_quantity g, pi_price = gd_price g, pi_price_rrc = gd_price_rrc g,
           pi_article = gd_id g\<rparr>]"
    unfolding E using ta by (simp add: ProductInfo_create_infos)
  have old: "attached ?E (pi_id y) = attached t (pi_id y)" if "y \<in> set (product_infos t)" for y
  proof -
    have "pi_id y \<noteq> ?n"
      using wf that by (auto simp: catalog_wf_def list_all_iff)
    then have "attached ?E (pi_id y) = attached ?tb (pi_id y)"
      unfolding E by (rule attached_import_parameters)
    also have "\<dots> = attached t (pi_id y)"
      using attached_Product_get_or_create [of t "gd_name g" "gd_category g" "pi_id y"] g
      by simp
    finally show ?thesis .
  qed
  show "seller_catalog ?E sid
           = seller_catalog t sid @
               [(pr_id p, gd_model g, gd_quantity g, gd_price g, gd_price_rrc g, gd_id g,
                 attached ?E ?n)]"
    using old by (simp add: seller_catalog_def infos)
  show "seller_catalog ?E seller_id = seller_catalog t seller_id" if "seller_id \<noteq> sid"
    using old that by (simp add: seller_catalog_def infos)
qed

lemma seller_catalog_import_item_other:
  assumes "catalog_wf t" "seller_id \<noteq> sid"
  shows "seller_catalog (snd (import_item t sid g)) seller_id = seller_catalog t seller_id"
proof -
  obtain r ta where g: "Product_get_or_create t (gd_name g) (gd_category g) = (r, ta)"
    by (cases "Product_get_or_create t (gd_name g) (gd_category g)")
  show ?thesis
  proof (cases r)
    case (Inl e)
    with g show ?thesis by (simp add: import_item_stops)
  next
    case (Inr p)
    with g assms show ?thesis by (simp add: seller_catalog_import_item(2))
  qed
qed

lemma seller_catalog_import_goods_other:
  assumes "catalog_wf t" "seller_id \<noteq> sid"
  shows "seller_catalog (snd (import_goods t sid gs)) seller_id = seller_catalog t seller_id"
  using assms(1)
proof (induction gs arbitrary: t)
  case Nil
  show ?case by simp
next
  case (Cons g gs)
  obtain r E where i: "import_item t sid g = (r, E)"
    by (cases "import_item t sid g")
  have E: "catalog_wf E" "seller_catalog E seller_id = seller_catalog t seller_id"
    using catalog_wf_import_item [OF Cons.prems, of sid g]
      seller_catalog_import_item_other [OF Cons.prems assms(2), of g] i by simp_all
  with i Cons.IH [of E] show ?case
    by (cases r) simp_all
qed

lemma seller_catalog_delete:
  "seller_catalog (ProductInfo_delete_seller t sid) sid = []"
  by (simp add: seller_catalog_def ProductInfo_delete_seller_def Let_def)

lemma seller_catalog_delete_other:
  assumes "catalog_wf t" "seller_id \<noteq> sid"
  shows "seller_catalog (ProductInfo_delete_seller t sid) seller_id = seller_catalog t seller_id"
proof -
  have keep: "attached (ProductInfo_delete_seller t sid) (pi_id y) = attached t (pi_id y)"
    if "y \<in> set (product_infos t)" "pi_seller y = seller_id" for y
  proof -
    have ne: "pi_id z \<noteq> pi_id y" if "z \<in> set (product_infos t)" "pi_seller z = sid" for z
    proof
      assume "pi_id z = pi_id y"
      moreover have "inj_on pi_id (set (product_infos t))"
        using assms(1) by (simp add: catalog_wf_def distinct_map)
      ultimately have "y = z"
        using \<open>y \<in> set (product_infos t)\<close> that(1) by (auto dest: inj_onD)
      with \<open>pi_seller y = seller_id\<close> that(2) assms(2) show False by simp
    qed
    have "filter (\<lambda>x. pp_product_info x = pi_id y)
            (filter (\<lambda>x. pp_product_info x
                        \<notin> set (map pi_id (filter (\<lambda>x. pi_seller x = sid) (product_infos t))))
               (product_parameters t))
          = filter (\<lambda>x. pp_product_info x = pi_id y) (product_parameters t)"
      unfolding filter_filter using ne by (intro filter_cong) auto
    then show ?thesis
      by (simp add: attached_def ProductInfo_delete_seller_def Let_def del: filter_filter)
  qed
  have "filter (\<lambda>x. pi_seller x = seller_id) (filter (\<lambda>x. pi_seller x \<noteq> sid) (product_infos t))
          = filter (\<lambda>x. pi_seller x = seller_id) (product_infos t)"
    using assms(2) by (auto intro: filter_cong)
  then show ?thesis
    using keep by (simp add: seller_catalog_def ProductInfo_delete_seller_def Let_def
        del: filter_filter)
qed

text \<open>A second run of the parameter loop against the tables the first run left.\<close>

lemma import_parameters_sim:
  assumes "parameters t2 = parameters F"
    and "kept_by pm_name (parameters (snd (import_parameters t1 n1 ps))) (parameters F)"
    and "fst (import_parameters t1 n1 ps) \<noteq> None
           \<Longrightarrow> parameters F = parameters (snd (import_parameters t1 n1 ps))"
    and "attached t2 n2 = attached t1 n1"
  shows "fst (import_parameters t2 n2 ps) = fst (import_parameters t1 n1 ps)
     \<and> attached (snd (import_parameters t2 n2 ps)) n2
         = attached (snd (import_parameters t1 n1 ps)) n1
     \<and> parameters (snd (import_parameters t2 n2 ps)) = parameters t2"
  using assms
proof (induction ps arbitrary: t1 t2)
  case Nil
  then show ?case by simp
next
  case (Cons kv ps)
  obtain k v where kv: "kv = (k, v)" by (cases kv)
  obtain r ta where g: "Parameter_get_or_create t1 k = (r, ta)"
    by (cases "Parameter_get_or_create t1 k")
  show ?case
  proof (cases r)
    case (Inl e)
    have ta: "ta = t1" and many: "filter (\<lambda>x. pm_name x = k) (parameters t1) \<noteq> []"
      using Parameter_get_or_create_Inl [of t1 k e ta] g Inl by auto
    have run1: "import_parameters t1 n1 (kv # ps) = (Some e, t1)"
      using g Inl ta kv by simp
    then have "parameters t2 = parameters t1"
      using Cons.prems(1,3) by simp
    then have "fst (Parameter_get_or_create t2 k) = Inl e" "snd (Parameter_get_or_create t2 k) = t2"
      using Parameter_get_or_create_same [of k t2 t1] many g Inl by simp_all
    then have "import_parameters t2 n2 (kv # ps) = (Some e, t2)"
      using kv by (cases "Parameter_get_or_create t2 k") simp
    with run1 Cons.prems(4) show ?thesis by simp
  next
    case (Inr q)
    let ?c1 = "ProductParameter_create ta n1 (pm_id q) v"
    let ?c2 = "ProductParameter_create t2 n2 (pm_id q) v"
    have run1: "import_parameters t1 n1 (kv # ps) = import_parameters ?c1 n1 ps"
      using g Inr kv by simp
    have "filter (\<lambda>x. pm_name x = k) (parameters ?c1) = [q]"
      using Parameter_get_or_create_Inr(1) [of t1 k q ta] g Inr by simp
    then have "filter (\<lambda>x. pm_name x = k) (parameters (snd (import_parameters ?c1 n1 ps))) = [q]"
      using import_parameters_kept [of ?c1 n1 ps] by (rule kept_byD [rotated])
    then have "filter (\<lambda>x. pm_name x = k) (parameters F) = [q]"
      using Cons.prems(2) unfolding run1 by (rule kept_byD [rotated])
    then have g2: "Parameter_get_or_create t2 k = (Inr q, t2)"
      using Cons.prems(1) by (simp add: Parameter_get_or_create_found)
    then have run2: "import_parameters t2 n2 (kv # ps) = import_parameters ?c2 n2 ps"
      using kv by simp
    have "attached ta n1 = attached t1 n1"
      using attached_Parameter_get_or_create [of t1 k n1] g by simp
    then have att: "attached ?c2 n2 = attached ?c1 n1"
      using Cons.prems(4) by (simp add: attached_ProductParameter_create)
    have "fst (import_parameters ?c2 n2 ps) = fst (import_parameters ?c1 n1 ps)
       \<and> attached (snd (import_parameters ?c2 n2 ps)) n2
           = attached (snd (import_parameters ?c1 n1 ps)) n1
       \<and> parameters (snd (import_parameters ?c2 n2 ps)) = parameters ?c2"
      using Cons.prems(1,2,3) att unfolding run1 by (intro Cons.IH) simp_all
    then show ?thesis
      unfolding run1 run2 by simp
  qed
qed

text \<open>A second run of one round of the goods loop against the tables the first run left.\<close>

lemma import_item_sim:
  assumes wf1: "catalog_wf t1" and wf2: "catalog_wf t2"
    and cat: "categories t2 = categories t1"
    and pr: "products t2 = products F" and pa: "parameters t2 = parameters F"
    and kp: "kept_by (\<lambda>x. (pr_name x, pr_category x)) (products (snd (import_item t1 sid g)))
               (products F)"
    and ka: "kept_by pm_name (parameters (snd (import_item t1 sid g))) (parameters F)"
    and stop: "fst (import_item t1 sid g) \<noteq> None
                 \<Longrightarrow> products F = products (snd (import_item t1 sid g))
                     \<and> parameters F = parameters (snd (import_item t1 sid g))"
    and view: "seller_catalog t2 sid = seller_catalog t1 sid"
  shows "fst (import_item t2 sid g) = fst (import_item t1 sid g)
     \<and> seller_catalog (snd (import_item t2 sid g)) sid
         = seller_catalog (snd (import_item t1 sid g)) sid
     \<and> products (snd (import_item t2 sid g)) = products t2
     \<and> parameters (snd (import_item t2 sid g)) = parameters t2"
proof -
  let ?n = "gd_name g" and ?c = "gd_category g"
  obtain r ta where g1: "Product_get_or_create t1 ?n ?c = (r, ta)"
    by (cases "Product_get_or_create t1 ?n ?c")
  show ?thesis
  proof (cases r)
    case (Inl e)
    have run1: "import_item t1 sid g = (Some e, t1)"
      using g1 Inl by (simp add: import_item_stops)
    then have same: "products t2 = products t1"
      using stop pr by simp
    have why: "filter (\<lambda>x. (pr_name x, pr_category x) = (?n, ?c)) (products t1) \<noteq> []
         \<or> \<not> list_ex (\<lambda>x. cg_id x = ?c) (categories t1)"
      using Product_get_or_create_Inl(2) [of t1 ?n ?c e ta] g1 Inl by auto
    have "fst (Product_get_or_create t2 ?n ?c) = Inl e"
      "snd (Product_get_or_create t2 ?n ?c) = t2"
      using Product_get_or_create_same [of ?n ?c t2 t1] same why cat g1 Inl by simp_all
    then have "Product_get_or_create t2 ?n ?c = (Inl e, t2)"
      by (cases "Product_get_or_create t2 ?n ?c") simp
    then have run2: "import_item t2 sid g = (Some e, t2)"
      by (simp add: import_item_stops)
    from run1 run2 view show ?thesis by simp
  next
    case (Inr p)
    let ?b1 = "snd (ProductInfo_create ta (gd_model g) (pr_id p) sid (gd_quantity g) (gd_price g)
                     (gd_price_rrc g) (gd_id g))"
    let ?b2 = "snd (ProductInfo_create t2 (gd_model g) (pr_id p) sid (gd_quantity g) (gd_price g)
                     (gd_price_rrc g) (gd_id g))"
    let ?n1 = "seq_product_info t1" and ?n2 = "seq_product_info t2"
    have ta: "seq_product_info ta = ?n1" "catalog_wf ta"
      using Product_get_or_create_frame(10) [of t1 ?n ?c]
        catalog_wf_Product_get_or_create [of t1 ?n ?c] g1 wf1 by simp_all
    have run1: "import_item t1 sid g = import_parameters ?b1 ?n1 (gd_parameters g)"
      using g1 Inr ta by (simp add: import_item_unfold)
    have "products (snd (import_item t1 sid g)) = products ta"
      unfolding run1 by simp
    moreover have "filter (\<lambda>x. (pr_name x, pr_category x) = (?n, ?c)) (products ta) = [p]"
      using Product_get_or_create_Inr(1) [of t1 ?n ?c p ta] g1 Inr by simp
    ultimately have "filter (\<lambda>x. (pr_name x, pr_category x) = (?n, ?c)) (products F) = [p]"
      using kp
        kept_byD [of "\<lambda>x. (pr_name x, pr_category x)" "products ta" "products F" "(?n, ?c)"
          p "[]"]
      by simp
    then have g2: "Product_get_or_create t2 ?n ?c = (Inr p, t2)"
      using pr by (simp add: Product_get_or_create_found)
    then have run2: "import_item t2 sid g = import_parameters ?b2 ?n2 (gd_parameters g)"
      by (simp add: import_item_unfold)
    have att: "attached ?b2 ?n2 = attached ?b1 ?n1"
      using attached_fresh [OF wf2, of ?n2] attached_fresh [OF ta(2), of ?n1] ta(1) by simp
    have sim: "fst (import_parameters ?b2 ?n2 (gd_parameters g))
                 = fst (import_parameters ?b1 ?n1 (gd_parameters g))
       \<and> attached (snd (import_parameters ?b2 ?n2 (gd_parameters g))) ?n2
           = attached (snd (import_parameters ?b1 ?n1 (gd_parameters g))) ?n1
       \<and> parameters (snd (import_parameters ?b2 ?n2 (gd_parameters g))) = parameters ?b2"
    proof (rule import_parameters_sim [of ?b2 F ?b1 ?n1 "gd_parameters g" ?n2])
      show "parameters ?b2 = parameters F" using pa by simp
      show "kept_by pm_name (parameters (snd (import_parameters ?b1 ?n1 (gd_parameters g))))
              (parameters F)"
        using ka unfolding run1 .
      show "parameters F = parameters (snd (import_parameters ?b1 ?n1 (gd_parameters g)))"
        if "fst (import_parameters ?b1 ?n1 (gd_parameters g)) \<noteq> None"
        using stop that unfolding run1 by simp
      show "attached ?b2 ?n2 = attached ?b1 ?n1" by (rule att)
    qed
    have v1: "seller_catalog (snd (import_item t1 sid g)) sid
           = seller_catalog t1 sid @
               [(pr_id p, gd_model g, gd_quantity g, gd_price g, gd_price_rrc g, gd_id g,
                 attached (snd (import_item t1 sid g)) ?n1)]"
      using seller_catalog_import_item(1) [OF wf1, of g p ta sid] g1 Inr by simp
    have v2: "seller_catalog (snd (import_item t2 sid g)) sid
           = seller_catalog t2 sid @
               [(pr_id p, gd_model g, gd_quantity g, gd_price g, gd_price_rrc g, gd_id g,
                 attached (snd (import_item t2 sid g)) ?n2)]"
      using seller_catalog_import_item(1) [OF wf2, of g p t2 sid] g2 by simp
    have "products (snd (import_item t2 sid g)) = products t2"
      unfolding run2 by simp
    with sim v1 v2 view show ?thesis
      unfolding run1 run2 by simp
  qed
qed

lemma import_goods_sim:
  assumes "catalog_wf t1" "catalog_wf t2" "categories t2 = categories t1"
    and "products t2 = products (snd (import_goods t1 sid gs))"
    and "parameters t2 = parameters (snd (import_goods t1 sid gs))"
    and "seller_catalog t2 sid = seller_catalog t1 sid"
  shows "seller_catalog (snd (import_goods t2 sid gs)) sid
           = seller_catalog (snd (import_goods t1 sid gs)) sid"
  using assms
proof (induction gs arbitrary: t1 t2)
  case Nil
  then show ?case by simp
next
  case (Cons g gs)
  let ?F = "snd (import_goods t1 sid (g # gs))"
  obtain r1 E1 where i1: "import_item t1 sid g = (r1, E1)"
    by (cases "import_item t1 sid g")
  obtain r2 E2 where i2: "import_item t2 sid g = (r2, E2)"
    by (cases "import_item t2 sid g")
  have F: "?F = (if r1 = None then snd (import_goods E1 sid gs) else E1)"
    using i1 by (cases r1) simp_all
  have kp: "kept_by (\<lambda>x. (pr_name x, pr_category x)) (products E1) (products ?F)"
    and ka: "kept_by pm_name (parameters E1) (parameters ?F)"
    unfolding F using import_goods_kept [of E1 sid gs] by (simp_all add: kept_by_refl)
  have stop: "products ?F = products E1 \<and> parameters ?F = parameters E1" if "r1 \<noteq> None"
    using that i1 by (cases r1) simp_all
  have sim: "fst (import_item t2 sid g) = fst (import_item t1 sid g)
     \<and> seller_catalog (snd (import_item t2 sid g)) sid
         = seller_catalog (snd (import_item t1 sid g)) sid
     \<and> products (snd (import_item t2 sid g)) = products t2
     \<and> parameters (snd (import_item t2 sid g)) = parameters t2"
  proof (rule import_item_sim [of t1 t2 ?F sid g])
    show "catalog_wf t1" "catalog_wf t2" "categories t2 = categories t1"
      "products t2 = products ?F" "parameters t2 = parameters ?F"
      "seller_catalog t2 sid = seller_catalog t1 sid"
      using Cons.prems by simp_all
    show "kept_by (\<lambda>x. (pr_name x, pr_category x)) (products (snd (import_item t1 sid g)))
            (products ?F)"
      using kp i1 by simp
    show "kept_by pm_name (parameters (snd (import_item t1 sid g))) (parameters ?F)"
      using ka i1 by simp
    show "products ?F = products (snd (import_item t1 sid g))
          \<and> parameters ?F = parameters (snd (import_item t1 sid g))"
      if "fst (import_item t1 sid g) \<noteq> None"
      using stop that i1 by simp
  qed
  then have r: "r2 = r1" and v: "seller_catalog E2 sid = seller_catalog E1 sid"
    and p2: "products E2 = products t2" "parameters E2 = parameters t2"
    using i1 i2 by simp_all
  show ?case
  proof (cases r1)
    case (Some e)
    with r v i1 i2 show ?thesis by simp
  next
    case None
    have "seller_catalog (snd (import_goods E2 sid gs)) sid
            = seller_catalog (snd (import_goods E1 sid gs)) sid"
    proof (rule Cons.IH)
      show "catalog_wf E1"
        using catalog_wf_import_item [OF Cons.prems(1), of sid g] i1 by simp
      show "catalog_wf E2"
        using catalog_wf_import_item [OF Cons.prems(2), of sid g] i2 by simp
      show "categories E2 = categories E1"
        using import_item_frame(3) [of t1 sid g] import_item_frame(3) [of t2 sid g] i1 i2
          Cons.prems(3) by simp
      show "products E2 = products (snd (import_goods E1 sid gs))"
        using p2(1) Cons.prems(4) F None by simp
      show "parameters E2 = parameters (snd (import_goods E1 sid gs))"
        using p2(2) Cons.prems(5) F None by simp
      show "seller_catalog E2 sid = seller_catalog E1 sid" by (rule v)
    qed
    with None r i1 i2 show ?thesis by simp
  qed
qed

text \<open>Replacing a seller's stock twice from the same goods.\<close>

lemma import_goods_twice:
  assumes "catalog_wf s"
  shows "seller_catalog
           (snd (import_goods
                   (ProductInfo_delete_seller
                      (snd (import_goods (ProductInfo_delete_seller s sid) sid gs)) sid)
                   sid gs))
           seller_id
         = seller_catalog (snd (import_goods (ProductInfo_delete_seller s sid) sid gs)) seller_id"
proof -
  let ?t1 = "ProductInfo_delete_seller s sid"
  let ?s1 = "snd (import_goods ?t1 sid gs)"
  let ?t2 = "ProductInfo_delete_seller ?s1 sid"
  have wf1: "catalog_wf ?t1" using assms by (rule catalog_wf_delete)
  have wfs: "catalog_wf ?s1" using wf1 by (rule catalog_wf_import_goods)
  have wf2: "catalog_wf ?t2" using wfs by (rule catalog_wf_delete)
  show ?thesis
  proof (cases "seller_id = sid")
    case True
    have "seller_catalog (snd (import_goods ?t2 sid gs)) sid = seller_catalog ?s1 sid"
      using wf1 wf2
    proof (rule import_goods_sim)
      show "categories ?t2 = categories ?t1" by simp
      show "products ?t2 = products ?s1" by simp
      show "parameters ?t2 = parameters ?s1" by simp
      show "seller_catalog ?t2 sid = seller_catalog ?t1 sid"
        by (simp add: seller_catalog_delete)
    qed
    with True show ?thesis by simp
  next
    case False
    have "seller_catalog (snd (import_goods ?t2 sid gs)) seller_id = seller_catalog ?t2 seller_id"
      using wf2 False by (rule seller_catalog_import_goods_other)
    also have "\<dots> = seller_catalog ?s1 seller_id"
      using wfs False by (rule seller_catalog_delete_other)
    finally show ?thesis .
  qed
qed

text \<open>The whole import, run twice.\<close>

lemma Seller_get_or_create_Inl:
  assumes "Seller_get_or_create s n u = (Inl e, s1)"
  shows "s1 = s"
  using assms
  by (auto simp: Seller_get_or_create_def Let_def split: got.splits if_splits)

lemma Seller_get_or_create_again:
  assumes "Seller_get_or_create s n u = (Inr x, s1)" and "sellers s' = sellers s1"
  shows "Seller_get_or_create s' n u = (Inr x, s')"
proof -
  have "filter (\<lambda>y. sl_name y = n \<and> sl_user y = Some u) (sellers s1) = [x]"
  proof (cases "filter (\<lambda>y. sl_name y = n \<and> sl_user y = Some u) (sellers s)")
    case Nil
    with assms(1) show ?thesis
      by (auto simp: Seller_get_or_create_def get_where_def Let_def split: if_splits)
  next
    case (Cons y ys)
    with assms(1) show ?thesis
      by (cases ys) (auto simp: Seller_get_or_create_def get_where_def)
  qed
  with assms(2) show ?thesis
    by (simp add: Seller_get_or_create_def get_where_def)
qed

lemma import_categories_None:
  assumes "import_categories s sid cs = (None, s2)"
  shows "cs = []" and "s2 = s"
proof -
  have "cs = [] \<and> s2 = s"
  proof (cases cs)
    case Nil
    with assms show ?thesis by simp
  next
    case (Cons c cs')
    with assms import_categories_error [of s sid c cs'] show ?thesis by simp
  qed
  then show "cs = []" and "s2 = s" by simp_all
qed

lemma seller_catalog_same_tables:
  assumes "product_infos s' = product_infos s" "product_parameters s' = product_parameters s"
  shows "seller_catalog s' seller_id = seller_catalog s seller_id"
  using assms by (simp add: seller_catalog_def attached_def)

lemma catalog_wf_same_tables:
  assumes "product_infos s' = product_infos s" "product_parameters s' = product_parameters s"
    "seq_product_info s' = seq_product_info s" "catalog_wf s"
  shows "catalog_wf s'"
  using assms by (simp add: catalog_wf_def)

lemma import_catalog_twice:
  assumes "catalog_wf s"
  shows "seller_catalog (snd (import_catalog (snd (import_catalog s u d)) u d)) seller_id
           = seller_catalog (snd (import_catalog s u d)) seller_id"
proof (cases rule: import_catalog_cases [of s d u])
  case (seller_fails e s1)
  then have "import_catalog s u d = (Inl e, s)"
    using Seller_get_or_create_Inl by blast
  then show ?thesis by simp
next
  case (categories_fail seller s1 e s2)
  obtain c cs where "dc_categories d = c # cs"
    using categories_fail(2) by (cases "dc_categories d") auto
  then have "product_infos (snd (import_catalog s2 u d)) = product_infos s2"
    "product_parameters (snd (import_catalog s2 u d)) = product_parameters s2"
    by (rule import_catalog_with_categories)+
  then have "seller_catalog (snd (import_catalog s2 u d)) seller_id = seller_catalog s2 seller_id"
    by (rule seller_catalog_same_tables)
  with categories_fail(3) show ?thesis by simp
next
  case (goods seller s1 s2 r s3)
  let ?sid = "sl_id seller" and ?gs = "dc_goods d"
  have nil: "dc_categories d = []" and s2: "s2 = s1"
    using import_categories_None [OF goods(2)] by simp_all
  have wf1: "catalog_wf s1"
    using Seller_get_or_create_frame(5,7,10) [of s "dc_seller d" u] goods(1) assms
    by (intro catalog_wf_same_tables [of s1 s]) simp_all
  have s3: "s3 = snd (import_goods (ProductInfo_delete_seller s1 ?sid) ?sid ?gs)"
    using goods(3) s2 by simp
  have first: "snd (import_catalog s u d) = s3"
    using goods(4) by simp
  have "sellers s3 = sellers s1"
    unfolding s3 by simp
  then have again: "Seller_get_or_create s3 (dc_seller d) u = (Inr seller, s3)"
    using Seller_get_or_create_again [OF goods(1)] by simp
  have second: "snd (import_catalog s3 u d)
                  = snd (import_goods (ProductInfo_delete_seller s3 ?sid) ?sid ?gs)"
    using again nil by (simp add: import_catalog_def split: prod.splits option.splits)
  show ?thesis
    unfolding first second unfolding s3 using wf1 by (rule import_goods_twice)
qed

lemma CatalogView_post_cases:
  obtains
    (answered) "\<And>t. snd (CatalogView_post validate_url fetch t user url) = t"
  | (imported) u d where
      "\<And>t. CatalogView_post validate_url fetch t user url = import_catalog t u d"
proof (cases user)
  case None
  then show thesis by (intro answered) (simp add: CatalogView_post_def)
next
  case (Some u0)
  show thesis
  proof (cases "us_type u0 = ''seller''")
    case False
    with Some show thesis by (intro answered) (simp add: CatalogView_post_def)
  next
    case True
    show thesis
    proof (cases url)
      case None
      with Some True show thesis by (intro answered) (simp add: CatalogView_post_def)
    next
      case (Some x)
      show thesis
      proof (cases "x = []")
        case True
        with \<open>user = Some u0\<close> \<open>us_type u0 = ''seller''\<close> Some show thesis
          by (intro answered) (simp add: CatalogView_post_def)
      next
        case False
        show thesis
        proof (cases "validate_url x")
          case (Some msg)
          with \<open>user = Some u0\<close> \<open>us_type u0 = ''seller''\<close> \<open>url = Some x\<close> False show thesis
            by (intro answered) (simp add: CatalogView_post_def)
        next
          case None
          show thesis
          proof (cases "fetch x")
            case (Inl e)
            with \<open>user = Some u0\<close> \<open>us_type u0 = ''seller''\<close> \<open>url = Some x\<close> False None
            show thesis
              by (intro answered) (simp add: CatalogView_post_def)
          next
            case (Inr d)
            with \<open>user = Some u0\<close> \<open>us_type u0 = ''seller''\<close> \<open>url = Some x\<close> False None
            show thesis
              by (intro imported [of "us_id u0" d]) (simp add: CatalogView_post_def)
          qed
        qed
      qed
    qed
  qed
qed

section \<open>Claims\<close>

text \<open>
  C1 (total_sum of the basket view, the order-list view and the seller-orders view).
  The claim asks that every order the three views return carries the sum of quantity
  times price over its items, once per order. The views return no order at all: each
  names the lookup \<^verbatim>\<open>ordered_items__product_info__price\<close>, and
  \<^verbatim>\<open>OrderItem\<close> reaches its product info through the field \<^verbatim>\<open>product\<close>, so
  for every store and every authenticated caller (a seller, for the seller-orders view)
  the query raises \<^verbatim>\<open>FieldError\<close> while it is built.
\<close>

theorem listing_views_raise_FieldError:
  "BasketView_get s (Some u) = Inl FieldError
   \<and> OrderView_get s (Some u) = Inl FieldError
   \<and> SellerOrdersView_get s (Some (u\<lparr>us_type := ''seller''\<rparr>)) = Inl FieldError"
  by (simp add: BasketView_get_def OrderView_get_def SellerOrdersView_get_def listing_def)

text \<open>
  C9 (each category is upserted and the seller is added to its set of sellers). The
  import reads \<^verbatim>\<open>category_object.sellers\<close>, which \<^verbatim>\<open>Category\<close> does not have
  (its relation is \<^verbatim>\<open>shops\<close>): whatever the request, the join table of categories
  and sellers is left as it was, and a document with at least one category ends the loop
  with an exception at the first one.
\<close>

theorem import_never_adds_seller_to_category:
  "category_shops (snd (CatalogView_post validate_url fetch s user url)) = category_shops s
   \<and> fst (import_categories s seller_id (category # rest))
       \<in> {Some AttributeError, Some IntegrityError, Some MultipleObjectsReturned}"
  using import_categories_error [of s seller_id category rest]
  by (simp add: CatalogView_post_def import_catalog_category_shops
      del: import_categories.simps split: option.splits sum.splits)

text \<open>
  C3 (after a successful import the seller's rows are those of the document; the example
  document yields a product info with quantity 5, price 1000 and the parameter Weight =
  1kg). The example document lists a category, so its import ends at line 76 with
  \<^verbatim>\<open>AttributeError\<close>, before the old rows are deleted and before any row is
  created: on the empty database the seller and the category are all that is written, and
  from any store, for any caller, the product-info and parameter rows stay as they were.
\<close>

theorem example_import_creates_no_product_info:
  "CatalogView_post (\<lambda>url. None) (\<lambda>url. Inr example_document) empty_store (Some seller_user)
      (Some ''http://acme.example/catalog.yaml'')
     = (Inl AttributeError,
        empty_store
          \<lparr>sellers := [\<lparr>sl_id = 1, sl_user = Some 1, sl_name = ''Acme'', sl_state = True,
                        sl_url = None\<rparr>],
           categories := [\<lparr>cg_id = 1, cg_name = ''Tools''\<rparr>],
           seq_seller := 2\<rparr>)
   \<and> product_infos (snd (CatalogView_post validate_url (\<lambda>url. Inr example_document) s user url))
       = product_infos s
   \<and> product_parameters
        (snd (CatalogView_post validate_url (\<lambda>url. Inr example_document) s user url))
       = product_parameters s"
proof -
  have "dc_categories example_document = \<lparr>ce_id = 1, ce_name = ''Tools''\<rparr> # []"
    by (simp add: example_document_def)
  note frame = import_catalog_with_categories(1,2) [OF this]
  have "CatalogView_post (\<lambda>url. None) (\<lambda>url. Inr example_document) empty_store
          (Some seller_user) (Some ''http://acme.example/catalog.yaml'')
     = (Inl AttributeError,
        empty_store
          \<lparr>sellers := [\<lparr>sl_id = 1, sl_user = Some 1, sl_name = ''Acme'', sl_state = True,
                        sl_url = None\<rparr>],
           categories := [\<lparr>cg_id = 1, cg_name = ''Tools''\<rparr>],
           seq_seller := 2\<rparr>)"
    by code_simp
  then show ?thesis
    by (simp add: CatalogView_post_def frame split: option.splits)
qed


text \<open>
  C5 (order placement moves the caller's order from basket to new and attaches the
  contact). The update names \<^verbatim>\<open>contact_id\<close>, which \<^verbatim>\<open>Order\<close> does not
  have: for a decimal order id the update raises \<^verbatim>\<open>FieldDoesNotExist\<close> before
  it reaches the database (an id of superscript digits already fails in the filter), and
  no request ever changes the store, so no order is moved to \<^verbatim>\<open>new\<close> from any
  state.
\<close>

theorem OrderView_post_never_updates:
  "snd (OrderView_post s user id_arg contact_arg) = s
   \<and> OrderView_post s (Some u) (Some order_id) (Some contact) =
       (if isdecimal order_id then (Inl FieldDoesNotExist, s)
        else if isdigit order_id then (Inl ValueError, s)
        else (Inr (JsonResponse (Errors ''Necessary arguments are not specified'') 200), s))"
  by (auto simp: OrderView_post_def Order_update_contact_id isdecimal_isdigit
      split: option.splits)


text \<open>
  C6 (an invalid contact id is answered with the explicit argument-error response and
  leaves the order as it is). With an existing basket order 1 of the caller and the
  contact id 999 that no contact has, the view leaves with \<^verbatim>\<open>FieldDoesNotExist\<close>,
  which line 592 does not catch; the store is unchanged. The argument-error response of
  lines 593-598 is the answer to no request at all.
\<close>

theorem OrderView_post_invalid_contact:
  "OrderView_post two_baskets_store (Some buyer) (Some ''1'') (Some ''999'')
     = (Inl FieldDoesNotExist, two_baskets_store)
   \<and> fst (OrderView_post s user id_arg contact_arg)
       \<noteq> Inr (JsonResponse (Errors ''The arguments are specified incorrectly'') 200)"
  by (simp add: OrderView_post_def Order_update_contact_id isdigit_def isdecimal_def
      split: option.splits)


text \<open>
  C7 (the add operation creates one order item per entry of the list and returns the
  count). The \<^verbatim>\<open>return\<close> of line 325 is inside the loop: the view answers after
  the first entry, so a list gives the same response and the same store as its first
  entry alone. With the two entries of the example basket one order item is created and
  the count returned is 1.
\<close>

theorem BasketView_post_first_entry_only:
  "BasketView_post s user (Parsed (JList (x # xs))) = BasketView_post s user (Parsed (JList [x]))
   \<and> fst (BasketView_post shop_store (Some buyer) (Parsed (JList [hammer_entry, second_entry])))
       = Inr (JsonResponse (Created_objects 1) 200)
   \<and> order_items
        (snd (BasketView_post shop_store (Some buyer)
                (Parsed (JList [hammer_entry, second_entry]))))
       = [\<lparr>oi_id = 1, oi_order = 1, oi_product = 1, oi_shop = 1, oi_quantity = 2\<rparr>]"
proof -
  have "BasketView_post s user (Parsed (JList (x # xs)))
          = BasketView_post s user (Parsed (JList [x]))"
    by (simp add: BasketView_post_def py_iter_def split: option.splits prod.splits sum.splits)
  moreover have
    "fst (BasketView_post shop_store (Some buyer) (Parsed (JList [hammer_entry, second_entry])))
       = Inr (JsonResponse (Created_objects 1) 200)"
    by code_simp
  moreover have
    "order_items
        (snd (BasketView_post shop_store (Some buyer)
                (Parsed (JList [hammer_entry, second_entry]))))
       = [\<lparr>oi_id = 1, oi_order = 1, oi_product = 1, oi_shop = 1, oi_quantity = 2\<rparr>]"
    by code_simp
  ultimately show ?thesis by simp
qed


text \<open>
  C4 (a user has at most one order in basket state after any sequence of basket
  operations). From a store in which no user has two baskets, any sequence of add,
  update and delete calls, by any callers and with any arguments, leads to a store where
  every user has at most one basket.
\<close>

theorem at_most_one_basket_per_user:
  assumes "basket_singleton s"
  shows "length (baskets_of (basket_run s calls) user_id) \<le> 1"
  using assms by (intro basket_singleton_baskets_of basket_singleton_run)

theorem at_most_one_basket_per_user_witness:
  "basket_singleton shop_store
   \<and> length
       (baskets_of
          (basket_run shop_store
             [Add_call (Some buyer) (Parsed (JList [hammer_entry])),
              Add_call (Some buyer) (Parsed (JList [second_entry])),
              Update_call (Some buyer)
                (Parsed (JList [JObj [(''id'', JInt 1), (''quantity'', JInt 4)]])),
              Delete_call (Some buyer) (Some ''2'')])
          (us_id buyer)) \<le> 1
   \<and> baskets_of
        (basket_run shop_store
           [Add_call (Some buyer) (Parsed (JList [hammer_entry])),
            Add_call (Some buyer) (Parsed (JList [second_entry]))])
        (us_id buyer)
       = [\<lparr>od_id = 1, od_user = 1, od_dt = 0, od_state = ''basket''\<rparr>]"
proof -
  have a: "basket_singleton shop_store"
    by code_simp
  have b: "baskets_of
        (basket_run shop_store
           [Add_call (Some buyer) (Parsed (JList [hammer_entry])),
            Add_call (Some buyer) (Parsed (JList [second_entry]))])
        (us_id buyer)
       = [\<lparr>od_id = 1, od_user = 1, od_dt = 0, od_state = ''basket''\<rparr>]"
    by code_simp
  show ?thesis
    using a b at_most_one_basket_per_user [OF a,
        of "[Add_call (Some buyer) (Parsed (JList [hammer_entry])),
              Add_call (Some buyer) (Parsed (JList [second_entry])),
              Update_call (Some buyer)
                (Parsed (JList [JObj [(''id'', JInt 1), (''quantity'', JInt 4)]])),
              Delete_call (Some buyer) (Some ''2'')]" "us_id buyer"]
    by simp
qed

text \<open>
  C10 (update and delete create an empty basket for a user who has none).
  \<^verbatim>\<open>Order.user\<close> is a foreign key to \<^verbatim>\<open>Contact\<close>: for a user who has no
  basket and whose id is the id of no contact, the insert of the basket fails with
  \<^verbatim>\<open>IntegrityError\<close>, both views leave with it and the store is unchanged.
\<close>

theorem basket_not_created_without_contact:
  assumes "\<not> list_ex (\<lambda>c. ct_id c = us_id u) (contacts s)"
    and "baskets_of s (us_id u) = []"
  shows "BasketView_delete s (Some u) (Some (c # cs)) = (Inl IntegrityError, s)
    \<and> BasketView_put s (Some u) (Parsed j) = (Inl IntegrityError, s)
    \<and> BasketView_put s (Some u) Malformed = (Inl IntegrityError, s)"
  using Order_get_or_create_no_contact [OF assms]
  by (simp add: BasketView_delete_def BasketView_put_def)

theorem basket_not_created_without_contact_witness:
  "\<not> list_ex (\<lambda>c. ct_id c = us_id buyer) (contacts empty_store)
   \<and> baskets_of empty_store (us_id buyer) = []
   \<and> BasketView_delete empty_store (Some buyer) (Some ''1'') = (Inl IntegrityError, empty_store)
   \<and> BasketView_put empty_store (Some buyer) (Parsed (JList [])) = (Inl IntegrityError, empty_store)
   \<and> orders (snd (BasketView_delete empty_store (Some buyer) (Some ''1''))) = []"
proof -
  have a: "\<not> list_ex (\<lambda>c. ct_id c = us_id buyer) (contacts empty_store)"
    by (simp add: empty_store_def)
  have b: "baskets_of empty_store (us_id buyer) = []"
    by (simp add: empty_store_def baskets_of_def)
  show ?thesis
    using a b basket_not_created_without_contact [OF a b, of "CHR ''1''" "[]" "JList []"]
    by (simp add: empty_store_def)
qed

text \<open>
  C8 (a basket delete call removes only items of the caller's own basket, never an item
  of another user's basket, and ignores the non-numeric ids). For a store whose order
  ids are distinct and below the sequence: an item the call removes has an id the list
  names and lies in a basket order of the caller; an item whose order belongs to another
  user stays; the call adds or changes no item; and the entries that fail
  \<^verbatim>\<open>isdigit\<close> are ignored, two non-empty lists with the same entries passing it
  giving the same response and the same store. An entry of superscript digits is not
  ignored: it passes \<^verbatim>\<open>isdigit\<close> and is no number, so with the list "2" followed
  by a comma and U+00B2 the call of the owner of item 2 leaves with \<^verbatim>\<open>ValueError\<close>
  and deletes nothing, while the list "2" alone deletes item 2.
\<close>

theorem BasketView_delete_own_basket_only:
  assumes "orders_wf s"
  shows
    "(\<forall>i. i \<in> set (order_items s)
          \<and> i \<notin> set (order_items (snd (BasketView_delete s (Some u) (Some str))))
        \<longrightarrow> oi_id i \<in> set (numeric_ids str)
            \<and> (\<exists>b. b \<in> set (baskets_of (snd (BasketView_delete s (Some u) (Some str)))
                              (us_id u))
                  \<and> oi_order i = od_id b))
     \<and> (\<forall>i x. i \<in> set (order_items s) \<and> x \<in> set (orders s) \<and> oi_order i = od_id x
              \<and> od_user x \<noteq> us_id u
        \<longrightarrow> i \<in> set (order_items (snd (BasketView_delete s (Some u) (Some str)))))
     \<and> set (order_items (snd (BasketView_delete s (Some u) (Some str))))
          \<subseteq> set (order_items s)
     \<and> (\<forall>str'. str \<noteq> [] \<and> str' \<noteq> [] \<and> digit_entries str' = digit_entries str
        \<longrightarrow> BasketView_delete s (Some u) (Some str') = BasketView_delete s (Some u) (Some str))
     \<and> BasketView_delete two_baskets_store (Some other_buyer) (Some (''2,'' @ [CHR 0xB2]))
         = (Inl ValueError, two_baskets_store)
     \<and> order_items (snd (BasketView_delete two_baskets_store (Some other_buyer) (Some ''2'')))
         = [\<lparr>oi_id = 1, oi_order = 1, oi_product = 1, oi_shop = 1, oi_quantity = 2\<rparr>]"
proof -
  let ?s' = "snd (BasketView_delete s (Some u) (Some str))"
  have ignored: "\<forall>str'. str \<noteq> [] \<and> str' \<noteq> [] \<and> digit_entries str' = digit_entries str
        \<longrightarrow> BasketView_delete s (Some u) (Some str') = BasketView_delete s (Some u) (Some str)"
    using BasketView_delete_digit_entries by blast
  have raises:
    "BasketView_delete two_baskets_store (Some other_buyer) (Some (''2,'' @ [CHR 0xB2]))
       = (Inl ValueError, two_baskets_store)"
    by code_simp
  have alone:
    "order_items (snd (BasketView_delete two_baskets_store (Some other_buyer) (Some ''2'')))
       = [\<lparr>oi_id = 1, oi_order = 1, oi_product = 1, oi_shop = 1, oi_quantity = 2\<rparr>]"
    by code_simp
  have rest: "(\<forall>i. i \<in> set (order_items s) \<and> i \<notin> set (order_items ?s')
        \<longrightarrow> oi_id i \<in> set (numeric_ids str)
            \<and> (\<exists>b. b \<in> set (baskets_of ?s' (us_id u)) \<and> oi_order i = od_id b))
     \<and> (\<forall>i x. i \<in> set (order_items s) \<and> x \<in> set (orders s) \<and> oi_order i = od_id x
              \<and> od_user x \<noteq> us_id u
        \<longrightarrow> i \<in> set (order_items ?s'))
     \<and> set (order_items ?s') \<subseteq> set (order_items s)"
  proof (cases rule: BasketView_delete_items [of s u str])
    case unchanged
    then show ?thesis by simp
  next
    case (deleted b)
    have wf: "distinct (map od_id (orders ?s'))"
      using orders_wf_get_or_create [OF assms, of "us_id u" "''basket''"] deleted(4)
      by (simp add: orders_wf_def)
    have mono: "set (orders s) \<subseteq> set (orders ?s')"
      using orders_get_or_create_mono [of s "us_id u" "''basket''"] deleted(4) by simp
    have own: "b \<in> set (baskets_of ?s' (us_id u))"
      using deleted(1,2,3) by (simp add: baskets_of_def)
    have other: "i \<in> set (order_items ?s')"
      if "i \<in> set (order_items s)" "x \<in> set (orders s)" "oi_order i = od_id x"
        "od_user x \<noteq> us_id u" for i x
    proof -
      have "x \<in> set (orders ?s')" using mono that(2) by blast
      then have "od_id x = od_id b \<Longrightarrow> x = b"
        using distinct_id_eq [OF wf _ deleted(1)] by blast
      then have "od_id x \<noteq> od_id b"
        using that(4) deleted(2) by blast
      with that(1,3) show ?thesis by (simp add: deleted(5))
    qed
    have only: "oi_id i \<in> set (numeric_ids str)
            \<and> (\<exists>b. b \<in> set (baskets_of ?s' (us_id u)) \<and> oi_order i = od_id b)"
      if "i \<in> set (order_items s)" "i \<notin> set (order_items ?s')" for i
    proof -
      from that have "oi_order i = od_id b \<and> oi_id i \<in> set (numeric_ids str)"
        by (simp add: deleted(5))
      with own show ?thesis by blast
    qed
    have sub: "set (order_items ?s') \<subseteq> set (order_items s)"
      by (simp add: deleted(5))
    show ?thesis
      using only other sub by blast
  qed
  from rest ignored raises alone show ?thesis by (intro conjI) blast+
qed

theorem BasketView_delete_own_basket_only_witness:
  "orders_wf two_baskets_store
   \<and> order_items two_baskets_store
       = [\<lparr>oi_id = 1, oi_order = 1, oi_product = 1, oi_shop = 1, oi_quantity = 2\<rparr>,
          \<lparr>oi_id = 2, oi_order = 2, oi_product = 2, oi_shop = 1, oi_quantity = 3\<rparr>]
   \<and> map od_user (orders two_baskets_store) = [1, 2]
   \<and> order_items (snd (BasketView_delete two_baskets_store (Some other_buyer) (Some ''1,x,2'')))
       = [\<lparr>oi_id = 1, oi_order = 1, oi_product = 1, oi_shop = 1, oi_quantity = 2\<rparr>]
   \<and> BasketView_delete two_baskets_store (Some other_buyer) (Some ''1,2'')
       = BasketView_delete two_baskets_store (Some other_buyer) (Some ''1,x,2'')"
proof -
  have wf: "orders_wf two_baskets_store"
    by code_simp
  have a: "order_items two_baskets_store
       = [\<lparr>oi_id = 1, oi_order = 1, oi_product = 1, oi_shop = 1, oi_quantity = 2\<rparr>,
          \<lparr>oi_id = 2, oi_order = 2, oi_product = 2, oi_shop = 1, oi_quantity = 3\<rparr>]"
    by code_simp
  have b: "map od_user (orders two_baskets_store) = [1, 2]"
    by code_simp
  have c: "order_items
             (snd (BasketView_delete two_baskets_store (Some other_buyer) (Some ''1,x,2'')))
       = [\<lparr>oi_id = 1, oi_order = 1, oi_product = 1, oi_shop = 1, oi_quantity = 2\<rparr>]"
    by code_simp
  have d: "''1,x,2'' \<noteq> [] \<and> ''1,2'' \<noteq> []
           \<and> digit_entries ''1,2'' = digit_entries ''1,x,2''"
    by code_simp
  from BasketView_delete_own_basket_only [OF wf, of other_buyer "''1,x,2''"] d
  have "BasketView_delete two_baskets_store (Some other_buyer) (Some ''1,2'')
       = BasketView_delete two_baskets_store (Some other_buyer) (Some ''1,x,2'')"
    by blast
  with wf a b c show ?thesis by simp
qed

text \<open>
  C2 (importing the same document twice leaves the seller with the same product-info rows
  as importing it once). For a store whose product-info keys are distinct and below the
  sequence, for every caller, URL and document: after a second call with the same
  arguments the catalog of every seller, and so that of the importing seller, is the one
  the first call left: the same rows in the same order, each with the same product, name,
  quantity, price, recommended price, article and attached parameters. This holds whether
  the first call succeeds, stops at an exception on the way or is turned away. The rows
  of the importing seller are replaced by the second call and carry fresh primary keys.
\<close>

theorem import_twice_same_catalog:
  assumes "catalog_wf s"
  shows "seller_catalog
           (snd (CatalogView_post validate_url fetch
                   (snd (CatalogView_post validate_url fetch s user url)) user url))
           seller_id
         = seller_catalog (snd (CatalogView_post validate_url fetch s user url)) seller_id"
proof (cases rule: CatalogView_post_cases [of validate_url fetch user url])
  case answered
  then show ?thesis by simp
next
  case (imported u d)
  then show ?thesis
    using import_catalog_twice [OF assms, of u d seller_id] by simp
qed

theorem import_twice_same_catalog_witness:
  "catalog_wf shop_store
   \<and> seller_catalog
        (snd (CatalogView_post (\<lambda>url. None) (\<lambda>url. Inr goods_document)
                (snd (CatalogView_post (\<lambda>url. None) (\<lambda>url. Inr goods_document) shop_store
                        (Some seller_user) (Some ''http://acme.example/catalog.yaml'')))
                (Some seller_user) (Some ''http://acme.example/catalog.yaml'')))
        2
       = [(1, ''H1'', 5, 1000, 1200, 10, [(1, ''1kg'')])]
   \<and> seller_catalog
        (snd (CatalogView_post (\<lambda>url. None) (\<lambda>url. Inr goods_document) shop_store
                (Some seller_user) (Some ''http://acme.example/catalog.yaml'')))
        2
       = [(1, ''H1'', 5, 1000, 1200, 10, [(1, ''1kg'')])]"
proof -
  have wf: "catalog_wf shop_store"
    by code_simp
  have once: "seller_catalog
        (snd (CatalogView_post (\<lambda>url. None) (\<lambda>url. Inr goods_document) shop_store
                (Some seller_user) (Some ''http://acme.example/catalog.yaml'')))
        2
       = [(1, ''H1'', 5, 1000, 1200, 10, [(1, ''1kg'')])]"
    by code_simp
  show ?thesis
    using wf once
      import_twice_same_catalog [OF wf, of "\<lambda>url. None" "\<lambda>url. Inr goods_document"
        "Some seller_user" "Some ''http://acme.example/catalog.yaml''" 2]
    by simp
qed

end
